theory Spec2Isabelle
  imports Main
begin

section \<open>JavaScript values\<close>

text \<open>
  Strings are lists of code units. A \<^typ>\<open>char\<close> stands for one UTF-16 code unit in the
  range U+0000..U+00FF, so \<^term>\<open>length s\<close> is the JavaScript \<^verbatim>\<open>s.length\<close>.
  Numbers are modelled as integers (version numbers, timestamps and sizes are integers
  far below 2^53, where JavaScript arithmetic on them is exact).
  Content is JSON data: the store holds nothing else.
\<close>

datatype json =
    JNull
  | JBool bool
  | JNum int
  | JStr string
  | JArr "json list"
  | JObj "(string \<times> json) list"

type_synonym jobject = "(string \<times> json) list"

text \<open>Truthiness of a value, as \<^verbatim>\<open>if (v)\<close> and \<^verbatim>\<open>v || d\<close> test it.\<close>

fun truthy :: "json \<Rightarrow> bool" where
  "truthy JNull = False"
| "truthy (JBool b) = b"
| "truthy (JNum n) = (n \<noteq> 0)"
| "truthy (JStr s) = (s \<noteq> [])"
| "truthy (JArr xs) = True"
| "truthy (JObj fs) = True"

text \<open>An exception value: its \<^verbatim>\<open>message\<close> and its \<^verbatim>\<open>code\<close> (set on store errors,
  absent on a plain \<^verbatim>\<open>new Error(msg)\<close>).\<close>

datatype thrown = Thrown (message: string) (code: "string option")

text \<open>Number to string, for integers: template literals and \<^verbatim>\<open>JSON.stringify\<close>.\<close>

fun digits :: "nat \<Rightarrow> string" where
  "digits n = (if n < 10 then [''0123456789'' ! n]
               else digits (n div 10) @ [''0123456789'' ! (n mod 10)])"

definition numberToString :: "int \<Rightarrow> string" where
  "numberToString n = (if n < 0 then ''-'' @ digits (nat (- n)) else digits (nat n))"

text \<open>\<^verbatim>\<open>String.prototype.includes\<close>.\<close>

fun str_includes :: "string \<Rightarrow> string \<Rightarrow> bool" where
  "str_includes [] w = (w = [])"
| "str_includes (c # s) w = (take (length w) (c # s) = w \<or> str_includes s w)"

text \<open>\<^verbatim>\<open>Array.prototype.join\<close>.\<close>

fun join :: "string \<Rightarrow> string list \<Rightarrow> string" where
  "join sep [] = []"
| "join sep [x] = x"
| "join sep (x # y # ys) = x @ sep @ join sep (y # ys)"

text \<open>The property names that every object literal inherits from \<^verbatim>\<open>Object.prototype\<close>: a
  lookup \<^verbatim>\<open>obj[key]\<close> of such a key finds the inherited member when \<open>obj\<close> has no
  property of its own under that name.\<close>

definition objectPrototypeKeys :: "string list" where
  "objectPrototypeKeys =
     [''constructor'', ''__defineGetter__'', ''__defineSetter__'', ''hasOwnProperty'',
      ''__lookupGetter__'', ''__lookupSetter__'', ''isPrototypeOf'',
      ''propertyIsEnumerable'', ''toString'', ''valueOf'', ''__proto__'',
      ''toLocaleString'']"

subsection \<open>JSON.stringify\<close>

definition hexDigit :: "nat \<Rightarrow> char" where
  "hexDigit n = ''0123456789abcdef'' ! (n mod 16)"

text \<open>QuoteJSONString: the escapes of one code unit.\<close>

definition quoteChar :: "char \<Rightarrow> string" where
  "quoteChar c =
     (if c = CHR 0x08 then [CHR 0x5C, CHR ''b'']
      else if c = CHR 0x09 then [CHR 0x5C, CHR ''t'']
      else if c = CHR 0x0A then [CHR 0x5C, CHR ''n'']
      else if c = CHR 0x0C then [CHR 0x5C, CHR ''f'']
      else if c = CHR 0x0D then [CHR 0x5C, CHR ''r'']
      else if c = CHR 0x22 then [CHR 0x5C, CHR 0x22]
      else if c = CHR 0x5C then [CHR 0x5C, CHR 0x5C]
      else if (of_char c :: nat) < 32
        then [CHR 0x5C, CHR ''u'', CHR ''0'', CHR ''0'',
              hexDigit (of_char c div 16), hexDigit (of_char c)]
      else [c])"

definition quoteJSONString :: "string \<Rightarrow> string" where
  "quoteJSONString s = [CHR 0x22] @ concat (map quoteChar s) @ [CHR 0x22]"

fun stringify :: "json \<Rightarrow> string" where
  "stringify JNull = ''null''"
| "stringify (JBool b) = (if b then ''true'' else ''false'')"
| "stringify (JNum n) = numberToString n"
| "stringify (JStr s) = quoteJSONString s"
| "stringify (JArr xs) = ''['' @ join '','' (map stringify xs) @ '']''"
| "stringify (JObj fs) =
     ''{'' @ join '','' (map (\<lambda>kv. quoteJSONString (fst kv) @ '':'' @ stringify (snd kv)) fs) @ ''}''"

section \<open>Regular expressions\<close>

text \<open>
  The regular expressions of \<^verbatim>\<open>sanitizer.ts\<close> as data, and a backtracking matcher with
  the priorities of ECMAScript: alternatives left to right, greedy repetition, an
  iteration that consumes nothing is not repeated.
\<close>

datatype cset = One char | WordC | SpaceC | NoneOf "char list" | AnyOf "char list"

datatype regex =
    Eps
  | Sym cset
  | WordB
  | Seq regex regex
  | Alt regex regex
  | Star regex
  | NotAhead regex

text \<open>WhiteSpace and LineTerminator code units below U+0100: what \<^verbatim>\<open>\s\<close> matches and
  \<^verbatim>\<open>trim()\<close> strips.\<close>

definition is_space :: "char \<Rightarrow> bool" where
  "is_space c =
     (c \<in> set [CHR 0x09, CHR 0x0A, CHR 0x0B, CHR 0x0C, CHR 0x0D, CHR '' '', CHR 0xA0])"

definition lower_letters :: string where
  "lower_letters = ''abcdefghijklmnopqrstuvwxyz''"

definition upper_letters :: string where
  "upper_letters = ''ABCDEFGHIJKLMNOPQRSTUVWXYZ''"

text \<open>\<^verbatim>\<open>\w\<close> and the word characters of \<^verbatim>\<open>\b\<close>.\<close>

definition is_word :: "char \<Rightarrow> bool" where
  "is_word c = (c \<in> set (lower_letters @ upper_letters @ ''0123456789_''))"

text \<open>Canonicalize: under the flag \<^verbatim>\<open>i\<close> a code unit is compared by its upper case. The
  patterns below hold ASCII characters only, and a code unit from U+0080 on never
  canonicalizes to an ASCII character, so only the ASCII letters need a mapping.\<close>

definition canonicalize :: "bool \<Rightarrow> char \<Rightarrow> char" where
  "canonicalize ic c =
     (if ic then (case map_of (zip lower_letters upper_letters) c of Some u \<Rightarrow> u | None \<Rightarrow> c)
      else c)"

fun in_cset :: "bool \<Rightarrow> cset \<Rightarrow> char \<Rightarrow> bool" where
  "in_cset ic (One a) c = (canonicalize ic a = canonicalize ic c)"
| "in_cset ic WordC c = is_word c"
| "in_cset ic SpaceC c = is_space c"
| "in_cset ic (AnyOf as) c = (canonicalize ic c \<in> set (map (canonicalize ic) as))"
| "in_cset ic (NoneOf as) c = (canonicalize ic c \<notin> set (map (canonicalize ic) as))"

text \<open>A position of the matcher: the code unit before it (none at the start of the
  input) and the rest of the input.\<close>

type_synonym mstate = "char option \<times> string"

definition at_boundary :: "mstate \<Rightarrow> bool" where
  "at_boundary st =
     ((case fst st of None \<Rightarrow> False | Some a \<Rightarrow> is_word a) \<noteq>
      (case snd st of [] \<Rightarrow> False | b # _ \<Rightarrow> is_word b))"

text \<open>All the positions at which a match that starts at \<open>st\<close> can end, in the order in
  which backtracking tries them: the head is the match the engine reports.\<close>

function matches :: "bool \<Rightarrow> regex \<Rightarrow> mstate \<Rightarrow> mstate list" where
  "matches ic Eps st = [st]"
| "matches ic (Sym cs) st =
     (case snd st of [] \<Rightarrow> []
      | c # s \<Rightarrow> if in_cset ic cs c then [(Some c, s)] else [])"
| "matches ic WordB st = (if at_boundary st then [st] else [])"
| "matches ic (Seq a b) st = concat (map (matches ic b) (matches ic a st))"
| "matches ic (Alt a b) st = matches ic a st @ matches ic b st"
| "matches ic (NotAhead a) st = (if matches ic a st = [] then [st] else [])"
| "matches ic (Star a) st =
     concat (map (\<lambda>st'. if length (snd st') < length (snd st)
                          then matches ic (Star a) st' else [])
                 (matches ic a st)) @ [st]"
  by pat_completeness auto
termination
  by (relation "measures [\<lambda>(ic, r, st). size r, \<lambda>(ic, r, st). length (snd st)]") auto

fun str :: "string \<Rightarrow> regex" where
  "str [] = Eps"
| "str (c # cs) = Seq (Sym (One c)) (str cs)"

fun seqs :: "regex list \<Rightarrow> regex" where
  "seqs [] = Eps"
| "seqs (r # rs) = Seq r (seqs rs)"

definition rplus :: "regex \<Rightarrow> regex" where
  "rplus r = Seq r (Star r)"

text \<open>\<^verbatim>\<open>s.replace(re, rep)\<close> for a regular expression with the flag \<^verbatim>\<open>g\<close> and a
  replacement string without \<^verbatim>\<open>$\<close>: every match, leftmost first, each search resuming
  where the last match ended (one code unit further after an empty match).\<close>

function replace_all :: "bool \<Rightarrow> regex \<Rightarrow> string \<Rightarrow> mstate \<Rightarrow> string" where
  "replace_all ic r rep st =
     (case matches ic r st of
        [] \<Rightarrow> (case snd st of [] \<Rightarrow> [] | c # s \<Rightarrow> c # replace_all ic r rep (Some c, s))
      | m # _ \<Rightarrow>
          if length (snd m) < length (snd st) then rep @ replace_all ic r rep m
          else (case snd st of [] \<Rightarrow> rep | c # s \<Rightarrow> rep @ c # replace_all ic r rep (Some c, s)))"
  by pat_completeness auto
termination
  by (relation "measure (\<lambda>(ic, r, rep, st). length (snd st))") auto

text \<open>The end index of the leftmost match at or after index \<open>pos\<close>, where \<open>p\<close> is the code
  unit before \<open>pos\<close> and the list is the input from \<open>pos\<close> on.\<close>

fun search :: "bool \<Rightarrow> regex \<Rightarrow> nat \<Rightarrow> char option \<Rightarrow> string \<Rightarrow> nat option" where
  "search ic r pos p [] =
     (case matches ic r (p, []) of [] \<Rightarrow> None | m # _ \<Rightarrow> Some pos)"
| "search ic r pos p (c # s) =
     (case matches ic r (p, c # s) of
        [] \<Rightarrow> search ic r (Suc pos) (Some c) s
      | m # _ \<Rightarrow> Some (pos + (length (c # s) - length (snd m))))"

text \<open>\<^verbatim>\<open>re.test(s)\<close> for a regular expression with the flag \<^verbatim>\<open>g\<close>: the search starts at
  \<^verbatim>\<open>re.lastIndex\<close>, which becomes the end of the match, or 0 when there is none. The
  result is the answer and the new \<^verbatim>\<open>lastIndex\<close>.\<close>

definition test_global :: "bool \<Rightarrow> regex \<Rightarrow> string \<Rightarrow> nat \<Rightarrow> bool \<times> nat" where
  "test_global ic r s lastIndex =
     (if lastIndex > length s then (False, 0)
      else (case search ic r lastIndex
                  (if lastIndex = 0 then None else Some (s ! (lastIndex - 1)))
                  (drop lastIndex s) of
              None \<Rightarrow> (False, 0)
            | Some e \<Rightarrow> (True, e)))"

section \<open>Sanitizer (src/src/lib/cms/sanitizer.ts)\<close>

definition TITLE :: nat where
  "TITLE = 200"

definition DESCRIPTION :: nat where
  "DESCRIPTION = 2000"

text \<open>\<^verbatim>\<open>DANGEROUS_PATTERNS\<close>: eighteen regular expressions, all with the flags \<^verbatim>\<open>gi\<close>.\<close>

definition DANGEROUS_PATTERNS :: "regex list" where
  "DANGEROUS_PATTERNS =
    [ seqs [str ''<script'', WordB, Star (Sym (NoneOf ''<'')),
            Star (seqs [NotAhead (str ''</script>''), Sym (One CHR ''<''),
                        Star (Sym (NoneOf ''<''))]),
            str ''</script>''],
      str ''javascript:'',
      seqs [str ''on'', rplus (Sym WordC), Star (Sym SpaceC), str ''=''],
      seqs [str ''data:'', Star (Sym SpaceC), str ''text/html''],
      str ''vbscript:'',
      seqs [str ''expression'', Star (Sym SpaceC), str ''(''],
      seqs [str ''<iframe'', WordB],
      seqs [str ''<object'', WordB],
      seqs [str ''<embed'', WordB],
      seqs [str ''<form'', WordB],
      seqs [str ''<input'', WordB],
      seqs [str ''<button'', WordB],
      seqs [str ''document.'', Alt (str ''cookie'') (Alt (str ''write'') (str ''location''))],
      seqs [str ''window.'', Alt (str ''location'') (str ''open'')],
      seqs [str ''eval'', Star (Sym SpaceC), str ''(''],
      seqs [str ''Function'', Star (Sym SpaceC), str ''(''],
      seqs [str ''setTimeout'', Star (Sym SpaceC), str ''(''],
      seqs [str ''setInterval'', Star (Sym SpaceC), str ''(''] ]"

text \<open>The mutable part of the module: the \<^verbatim>\<open>lastIndex\<close> of each pattern, in the order of
  \<^verbatim>\<open>DANGEROUS_PATTERNS\<close>. All are 0 when the module is loaded.\<close>

type_synonym regex_state = "nat list"

definition initial_patterns :: regex_state where
  "initial_patterns = replicate 18 0"

definition htmlEntities :: "(char \<times> string) list" where
  "htmlEntities =
     [(CHR ''&'', ''&amp;''), (CHR ''<'', ''&lt;''), (CHR ''>'', ''&gt;''),
      (CHR 0x22, ''&quot;''), (CHR 0x27, ''&#x27;''), (CHR ''/'', ''&#x2F;''),
      (CHR 0x60, ''&#x60;''), (CHR ''='', ''&#x3D;'')]"

definition escapeHtml :: "string \<Rightarrow> string" where
  "escapeHtml input =
     concat (map (\<lambda>c. case map_of htmlEntities c of Some e \<Rightarrow> e | None \<Rightarrow> [c]) input)"

text \<open>\<^verbatim>\<open>DANGEROUS_PATTERNS.some(pattern => pattern.test(input))\<close>: the patterns are tested in
  order until one matches; each test that runs moves that pattern's \<^verbatim>\<open>lastIndex\<close>.\<close>

fun some_test :: "(regex \<times> nat) list \<Rightarrow> string \<Rightarrow> bool \<times> nat list" where
  "some_test [] s = (False, [])"
| "some_test ((r, li) # rest) s =
     (case test_global True r s li of
        (True, li') \<Rightarrow> (True, li' # map snd rest)
      | (False, li') \<Rightarrow> (case some_test rest s of (b, lis) \<Rightarrow> (b, li' # lis)))"

definition containsDangerousContent :: "regex_state \<Rightarrow> string \<Rightarrow> bool \<times> regex_state" where
  "containsDangerousContent st input = some_test (zip DANGEROUS_PATTERNS st) input"

text \<open>\<^verbatim>\<open>replace\<close> with a global pattern starts from index 0 whatever \<^verbatim>\<open>lastIndex\<close> was and
  leaves it at 0.\<close>

definition removeDangerousContent :: "regex_state \<Rightarrow> string \<Rightarrow> string \<times> regex_state" where
  "removeDangerousContent st input =
     (fold (\<lambda>pattern result. replace_all True pattern [] (None, result)) DANGEROUS_PATTERNS input,
      map (\<lambda>_. 0) st)"

definition trim :: "string \<Rightarrow> string" where
  "trim s = rev (dropWhile is_space (rev (dropWhile is_space s)))"

text \<open>\<^verbatim>\<open>sanitizeText(input, maxLength)\<close>; \<open>None\<close> is \<^verbatim>\<open>null\<close> or \<^verbatim>\<open>undefined\<close>.\<close>

definition sanitizeText :: "regex_state \<Rightarrow> string option \<Rightarrow> nat \<Rightarrow> string \<times> regex_state" where
  "sanitizeText st input maxLength =
     (case input of
        None \<Rightarrow> ([], st)
      | Some s \<Rightarrow>
          if s = [] then ([], st)
          else
            let (r1, st') = removeDangerousContent st (trim s);
                r2 = replace_all False (rplus (Sym (AnyOf [CHR 0x09, CHR 0x0C, CHR 0x0B]))) '' ''
                       (None, r1);
                r3 = replace_all False (rplus (Sym (One CHR '' ''))) '' '' (None, r2)
            in (if length r3 > maxLength then take maxLength r3 else r3, st'))"

definition sanitizeTitle :: "regex_state \<Rightarrow> string option \<Rightarrow> string \<times> regex_state" where
  "sanitizeTitle st input =
     (case input of
        None \<Rightarrow> ([], st)
      | Some s \<Rightarrow>
          if s = [] then ([], st)
          else
            let r1 = replace_all False (rplus (Sym (AnyOf [CHR 0x0D, CHR 0x0A]))) '' ''
                       (None, trim s);
                r2 = replace_all False (rplus (Sym SpaceC)) '' '' (None, r1);
                (r3, st') = removeDangerousContent st r2;
                r4 = escapeHtml r3
            in (if length r4 > TITLE then take TITLE r4 else r4, st'))"

text \<open>\<^verbatim>\<open>sanitizeObject(obj)\<close> called without \<^verbatim>\<open>fieldRules\<close>, as the Content Service calls it:
  every string gets the rule \<^verbatim>\<open>text\<close>. \<open>sanitizeEntry\<close> is the body of the loop over
  \<^verbatim>\<open>Object.entries(obj)\<close> for one value, \<open>sanitizeEntries\<close> the loop when \<open>obj\<close> is an
  object, \<open>sanitizeIndexed\<close> the loop when \<open>obj\<close> is an array (its entries are keyed by
  index and the result is an object), \<open>sanitizeItems\<close> is \<^verbatim>\<open>value.map(item => ...)\<close>.
  The result is built by \<^verbatim>\<open>result[key] = ...\<close> on an object literal: under the key
  \<^verbatim>\<open>__proto__\<close> the assignment reaches the inherited setter and adds no property, so
  that entry is missing from the result.\<close>

fun sanitizeEntry :: "regex_state \<Rightarrow> json \<Rightarrow> json \<times> regex_state"
  and sanitizeItems :: "regex_state \<Rightarrow> json list \<Rightarrow> json list \<times> regex_state"
  and sanitizeEntries :: "regex_state \<Rightarrow> jobject \<Rightarrow> jobject \<times> regex_state"
  and sanitizeIndexed :: "regex_state \<Rightarrow> nat \<Rightarrow> json list \<Rightarrow> jobject \<times> regex_state"
where
  "sanitizeEntry st JNull = (JNull, st)"
| "sanitizeEntry st (JStr s) =
     (case sanitizeText st (Some s) DESCRIPTION of (r, st') \<Rightarrow> (JStr r, st'))"
| "sanitizeEntry st (JArr items) =
     (case sanitizeItems st items of (r, st') \<Rightarrow> (JArr r, st'))"
| "sanitizeEntry st (JObj fs) =
     (case sanitizeEntries st fs of (r, st') \<Rightarrow> (JObj r, st'))"
| "sanitizeEntry st (JBool b) = (JBool b, st)"
| "sanitizeEntry st (JNum n) = (JNum n, st)"
| "sanitizeItems st [] = ([], st)"
| "sanitizeItems st (item # items) =
     (case (case item of
              JStr s \<Rightarrow> (case sanitizeText st (Some s) DESCRIPTION of (r, st') \<Rightarrow> (JStr r, st'))
            | JObj fs \<Rightarrow> (case sanitizeEntries st fs of (r, st') \<Rightarrow> (JObj r, st'))
            | JArr xs \<Rightarrow> (case sanitizeIndexed st 0 xs of (r, st') \<Rightarrow> (JObj r, st'))
            | _ \<Rightarrow> (item, st)) of
        (item', st1) \<Rightarrow>
          (case sanitizeItems st1 items of (rest, st2) \<Rightarrow> (item' # rest, st2)))"
| "sanitizeEntries st [] = ([], st)"
| "sanitizeEntries st ((k, v) # rest) =
     (case sanitizeEntry st v of
        (v', st1) \<Rightarrow>
          (case sanitizeEntries st1 rest of
             (rest', st2) \<Rightarrow>
               (if k = ''__proto__'' then (rest', st2) else ((k, v') # rest', st2))))"
| "sanitizeIndexed st i [] = ([], st)"
| "sanitizeIndexed st i (v # rest) =
     (case sanitizeEntry st v of
        (v', st1) \<Rightarrow>
          (case sanitizeIndexed st1 (Suc i) rest of
             (rest', st2) \<Rightarrow> ((digits i, v') # rest', st2)))"

definition sanitizeObject :: "regex_state \<Rightarrow> jobject \<Rightarrow> jobject \<times> regex_state" where
  "sanitizeObject st obj = sanitizeEntries st obj"

record validation_result =
  isValid :: bool
  errors :: "string list"
  warnings :: "string list"

text \<open>\<^verbatim>\<open>validateContent(content, requiredFields)\<close>. \<^verbatim>\<open>content[field]\<close> of a field that the
  content does not own finds the member inherited from \<^verbatim>\<open>Object.prototype\<close>, if there is
  one, and such a field does not count as missing. The check for dangerous content
  only adds a warning, but it runs the patterns.\<close>

definition validateContent ::
  "regex_state \<Rightarrow> jobject \<Rightarrow> string list \<Rightarrow> validation_result \<times> regex_state" where
  "validateContent st c requiredFields =
     (let errs = concat (map (\<lambda>field.
                    if (case map_of c field of
                          Some v \<Rightarrow> v = JNull \<or> v = JStr []
                        | None \<Rightarrow> field \<notin> set objectPrototypeKeys)
                    then [field @ '' is required''] else []) requiredFields);
          (dangerous, st') = containsDangerousContent st (stringify (JObj c))
      in (\<lparr>isValid = (errs = []), errors = errs,
           warnings = (if dangerous
              then [''Content contains potentially dangerous patterns that will be sanitized'']
              else [])\<rparr>, st'))"

section \<open>Roles and permissions (src/src/lib/cms/types.ts; rbac.ts in src/unnamed/part_004)\<close>

datatype permission =
    CONTENT_READ | CONTENT_CREATE | CONTENT_UPDATE | CONTENT_DELETE | CONTENT_PUBLISH
  | CONTENT_ROLLBACK | ADMIN_READ | ADMIN_CREATE | ADMIN_UPDATE | ADMIN_DELETE
  | AUDIT_READ | VERSION_READ | VERSION_RESTORE

fun permission_string :: "permission \<Rightarrow> string" where
  "permission_string CONTENT_READ = ''content:read''"
| "permission_string CONTENT_CREATE = ''content:create''"
| "permission_string CONTENT_UPDATE = ''content:update''"
| "permission_string CONTENT_DELETE = ''content:delete''"
| "permission_string CONTENT_PUBLISH = ''content:publish''"
| "permission_string CONTENT_ROLLBACK = ''content:rollback''"
| "permission_string ADMIN_READ = ''admin:read''"
| "permission_string ADMIN_CREATE = ''admin:create''"
| "permission_string ADMIN_UPDATE = ''admin:update''"
| "permission_string ADMIN_DELETE = ''admin:delete''"
| "permission_string AUDIT_READ = ''audit:read''"
| "permission_string VERSION_READ = ''version:read''"
| "permission_string VERSION_RESTORE = ''version:restore''"

text \<open>\<^verbatim>\<open>Object.values(UserRole)\<close> and \<^verbatim>\<open>Object.values(Permission)\<close>. A role is the string the
  user record carries: \<^verbatim>\<open>isValidRole\<close> exists because it need not be one of the three.\<close>

definition UserRole_values :: "string list" where
  "UserRole_values = [''super_admin'', ''admin'', ''editor'']"

definition Permission_values :: "permission list" where
  "Permission_values =
     [CONTENT_READ, CONTENT_CREATE, CONTENT_UPDATE, CONTENT_DELETE, CONTENT_PUBLISH,
      CONTENT_ROLLBACK, ADMIN_READ, ADMIN_CREATE, ADMIN_UPDATE, ADMIN_DELETE,
      AUDIT_READ, VERSION_READ, VERSION_RESTORE]"

definition RolePermissions :: "(string \<times> permission list) list" where
  "RolePermissions =
     [(''super_admin'', Permission_values),
      (''admin'', [CONTENT_READ, CONTENT_CREATE, CONTENT_UPDATE, CONTENT_DELETE,
                   CONTENT_PUBLISH, CONTENT_ROLLBACK, ADMIN_READ, AUDIT_READ,
                   VERSION_READ, VERSION_RESTORE]),
      (''editor'', [CONTENT_READ, CONTENT_CREATE, CONTENT_UPDATE, VERSION_READ])]"

text \<open>\<^verbatim>\<open>RolePermissions\<close> is an object literal: a key it does not own is looked up on
  \<^verbatim>\<open>Object.prototype\<close>, and what is found there has no \<^verbatim>\<open>includes\<close> method.\<close>

text \<open>\<^verbatim>\<open>RolePermissions[role]?.includes(permission) ?? false\<close>.\<close>

definition hasPermission :: "string \<Rightarrow> permission \<Rightarrow> thrown + bool" where
  "hasPermission r p =
     (case map_of RolePermissions r of
        Some permissions \<Rightarrow> Inr (p \<in> set permissions)
      | None \<Rightarrow>
          if r \<in> set objectPrototypeKeys
          then Inl (Thrown ''permissions.includes is not a function'' None)
          else Inr False)"

definition isValidRole :: "string \<Rightarrow> bool" where
  "isValidRole r = (r \<in> set UserRole_values)"

text \<open>The fields of \<^verbatim>\<open>AdminUser\<close> that the modelled code reads.\<close>

record admin_user =
  user_id :: string
  email :: string
  role :: string
  isActive :: bool

record access_decision =
  allowed :: bool
  reason :: "string option"
  requiredPermission :: "permission option"

text \<open>\<^verbatim>\<open>makeAccessDecision(user, requiredPermission)\<close>; \<open>None\<close> is \<^verbatim>\<open>null\<close> or \<^verbatim>\<open>undefined\<close>.\<close>

definition makeAccessDecision :: "admin_user option \<Rightarrow> permission \<Rightarrow> thrown + access_decision" where
  "makeAccessDecision u p =
     (case u of
        None \<Rightarrow>
          Inr \<lparr>allowed = False, reason = Some ''User not authenticated'', requiredPermission = None\<rparr>
      | Some usr \<Rightarrow>
          if \<not> isActive usr
          then Inr \<lparr>allowed = False, reason = Some ''User account is deactivated'', requiredPermission = None\<rparr>
          else if \<not> isValidRole (role usr)
          then Inr \<lparr>allowed = False, reason = Some ''Invalid user role'', requiredPermission = None\<rparr>
          else (case hasPermission (role usr) p of
                  Inl e \<Rightarrow> Inl e
                | Inr has \<Rightarrow>
                    if \<not> has
                    then Inr \<lparr>allowed = False,
                              reason = Some (''Missing required permission: '' @ permission_string p),
                              requiredPermission = Some p\<rparr>
                    else Inr \<lparr>allowed = True, reason = None, requiredPermission = None\<rparr>))"

section \<open>Documents, snapshots and audit entries (src/src/lib/cms/types.ts)\<close>

datatype content_status = DRAFT | PUBLISHED | ARCHIVED

text \<open>\<^verbatim>\<open>OperationResult<T>\<close>; an absent field is \<open>None\<close>.\<close>

record 'a operation_result =
  success :: bool
  data :: "'a option"
  error :: "string option"
  errorCode :: "string option"

text \<open>\<^verbatim>\<open>VersionedDocument\<close>. A document written by this code has both fields; a document
  that other code wrote at the same path may lack \<^verbatim>\<open>_meta\<close> or \<^verbatim>\<open>content\<close>, which is
  what the optional chaining of \<^verbatim>\<open>saveContent\<close> provides for.\<close>

record content_meta =
  version :: int
  status :: content_status
  createdAt :: int
  createdBy :: string
  updatedAt :: int
  updatedBy :: string
  publishedAt :: "int option"
  publishedBy :: "string option"

record versioned_document =
  content :: "json option"
  meta :: "content_meta option"

record content_version =
  versionId :: string
  cv_version :: int
  contentSnapshot :: "json option"
  cv_createdAt :: int
  cv_createdBy :: string
  createdByEmail :: "string option"
  changeDescription :: "string option"
  isRollback :: bool
  rolledBackFrom :: "int option"

datatype audit_action =
    LOGIN | LOGOUT | LOGIN_FAILED
  | A_CONTENT_CREATE | A_CONTENT_UPDATE | A_CONTENT_DELETE | A_CONTENT_PUBLISH
  | A_CONTENT_UNPUBLISH | A_CONTENT_ROLLBACK
  | A_ADMIN_CREATE | A_ADMIN_UPDATE | A_ADMIN_DELETE | A_ADMIN_ROLE_CHANGE
  | SETTINGS_UPDATE

text \<open>\<^verbatim>\<open>AuditLogInput\<close>, and \<^verbatim>\<open>AuditLog\<close> which adds the fields that \<^verbatim>\<open>log\<close> fills in.\<close>

record audit_log_input =
  action :: audit_action
  userId :: string
  userEmail :: string
  userRole :: string
  resourceType :: "string option"
  resourceId :: "string option"
  resourcePath :: "string option"
  previousValue :: "json option"
  newValue :: "json option"
  log_success :: bool
  errorMessage :: "string option"
  metadata :: "json option"

record audit_log = audit_log_input +
  log_id :: string
  timestamp :: int
  userAgent :: "string option"

section \<open>The document store and its environment\<close>

text \<open>
  The state that the services share: the live documents by path, the \<^verbatim>\<open>_versions\<close>
  sub-collection of each path and the \<^verbatim>\<open>audit_logs\<close> collection (rows with their
  document ids, in the order they were added), and the \<^verbatim>\<open>lastIndex\<close> values of the
  sanitizer's patterns.
\<close>

record world =
  docs :: "string \<Rightarrow> versioned_document option"
  versions :: "string \<Rightarrow> (string \<times> content_version) list"
  audit_logs :: "(string \<times> audit_log) list"
  patterns :: regex_state

text \<open>
  What one call of a service reads from outside: for each store operation whether it
  throws (and what), the readings of \<^verbatim>\<open>Date.now()\<close>, the identifiers that \<^verbatim>\<open>uuidv4()\<close> and
  \<^verbatim>\<open>addDoc\<close> produce, and the browser's user agent. A transaction that throws writes
  nothing. No other client writes between the steps of a call.
\<close>

record env =
  getDocError :: "thrown option"
  txGetError :: "thrown option"
  txCommitError :: "thrown option"
  queryError :: "thrown option"
  snapshotAddError :: "thrown option"
  auditAddError :: "thrown option"
  txNow :: int
  snapshotNow :: int
  auditNow :: int
  snapshotUuid :: string
  snapshotDocId :: string
  auditUuid :: string
  auditDocId :: string
  navigatorUserAgent :: "string option"

section \<open>Audit Logger (audit-logger.ts, in src/src/lib/cms/types.ts)\<close>

definition MAX_VALUE_SIZE :: nat where
  "MAX_VALUE_SIZE = 10000"

definition truncateValue :: "json option \<Rightarrow> json option" where
  "truncateValue v =
     (case v of
        None \<Rightarrow> None
      | Some j \<Rightarrow>
          if \<not> truthy j then None
          else
            let stringified = stringify j
            in if length stringified \<le> MAX_VALUE_SIZE then Some j
               else Some (JObj [(''_truncated'', JBool True),
                                (''_originalSize'', JNum (int (length stringified))),
                                (''_preview'', JStr (take 500 stringified @ ''...''))]))"

text \<open>\<^verbatim>\<open>addDoc(collection(firestore, 'audit_logs'), auditLog)\<close>.\<close>

definition addAuditDoc :: "env \<Rightarrow> world \<Rightarrow> audit_log \<Rightarrow> thrown + (string \<times> world)" where
  "addAuditDoc e w entry =
     (case auditAddError e of
        Some err \<Rightarrow> Inl err
      | None \<Rightarrow> Inr (auditDocId e, w\<lparr>audit_logs := audit_logs w @ [(auditDocId e, entry)]\<rparr>))"

text \<open>\<^verbatim>\<open>AuditLogger.log(input)\<close>: the \<^verbatim>\<open>try\<close> around \<^verbatim>\<open>addDoc\<close> returns the empty string
  when the append throws.\<close>

definition log :: "env \<Rightarrow> world \<Rightarrow> audit_log_input \<Rightarrow> thrown + (string \<times> world)" where
  "log e w input =
     (let auditLog =
            \<lparr>action = action input, userId = userId input, userEmail = userEmail input,
             userRole = userRole input, resourceType = resourceType input,
             resourceId = resourceId input, resourcePath = resourcePath input,
             previousValue = truncateValue (previousValue input),
             newValue = truncateValue (newValue input),
             log_success = log_success input, errorMessage = errorMessage input,
             metadata = metadata input,
             log_id = auditUuid e, timestamp = auditNow e,
             userAgent = navigatorUserAgent e\<rparr>
      in (case addAuditDoc e w auditLog of
            Inr (docId, w') \<Rightarrow> Inr (docId, w')
          | Inl err \<Rightarrow> Inr ([], w)))"

definition logContentUpdate ::
  "env \<Rightarrow> world \<Rightarrow> string \<Rightarrow> string \<Rightarrow> string \<Rightarrow> string \<Rightarrow> string \<Rightarrow> string \<Rightarrow>
   json \<Rightarrow> json \<Rightarrow> bool \<Rightarrow> string option \<Rightarrow> thrown + (string \<times> world)" where
  "logContentUpdate e w uid uemail urole rtype rid rpath prev new ok errMsg =
     log e w \<lparr>action = A_CONTENT_UPDATE, userId = uid, userEmail = uemail, userRole = urole,
              resourceType = Some rtype, resourceId = Some rid, resourcePath = Some rpath,
              previousValue = Some prev, newValue = Some new,
              log_success = ok, errorMessage = errMsg, metadata = None\<rparr>"

definition logContentRollback ::
  "env \<Rightarrow> world \<Rightarrow> string \<Rightarrow> string \<Rightarrow> string \<Rightarrow> string \<Rightarrow> string \<Rightarrow> string \<Rightarrow>
   json option \<Rightarrow> json option \<Rightarrow> int \<Rightarrow> int \<Rightarrow> bool \<Rightarrow> string option \<Rightarrow>
   thrown + (string \<times> world)" where
  "logContentRollback e w uid uemail urole rtype rid rpath prev new fromVersion toVersion ok errMsg =
     log e w \<lparr>action = A_CONTENT_ROLLBACK, userId = uid, userEmail = uemail, userRole = urole,
              resourceType = Some rtype, resourceId = Some rid, resourcePath = Some rpath,
              previousValue = prev, newValue = new,
              log_success = ok, errorMessage = errMsg,
              metadata = Some (JObj [(''fromVersion'', JNum fromVersion),
                                     (''toVersion'', JNum toVersion)])\<rparr>"

section \<open>Version Manager (version-manager.ts, in src/src/lib/db/analytics.ts)\<close>

record save_content_options =
  opt_userId :: string
  opt_userEmail :: string
  opt_changeDescription :: "string option"
  expectedVersion :: "int option"
  publish :: bool

record rollback_options =
  rb_userId :: string
  rb_userEmail :: string
  targetVersion :: int

record rollback_data =
  rb_version :: int
  restoredVersion :: int

text \<open>What the transaction callbacks return.\<close>

record tx_result =
  newVersion :: int
  previousContent :: "json option"
  previousVersion :: int

text \<open>The result of a \<^verbatim>\<open>catch (error)\<close> block:
  \<^verbatim>\<open>{success: false, error: error.message || dflt, errorCode: error.code}\<close>.\<close>

definition failed :: "string \<Rightarrow> thrown \<Rightarrow> 'a operation_result" where
  "failed dflt err =
     \<lparr>success = False, data = None,
      error = Some (if message err = [] then dflt else message err),
      errorCode = code err\<rparr>"

text \<open>\<^verbatim>\<open>currentData?._meta?.version ?? 0\<close>.\<close>

definition currentVersionOf :: "versioned_document option \<Rightarrow> int" where
  "currentVersionOf currentData =
     (case currentData of
        None \<Rightarrow> 0
      | Some d \<Rightarrow> (case meta d of None \<Rightarrow> 0 | Some m \<Rightarrow> version m))"

definition conflictMessage :: "int \<Rightarrow> int \<Rightarrow> string" where
  "conflictMessage expected current =
     ''Version conflict: expected version '' @ numberToString expected @
     '', but current version is '' @ numberToString current @ ''. '' @
     ''Please refresh and try again.''"

text \<open>\<^verbatim>\<open>createVersionSnapshot\<close>: one row added to the \<^verbatim>\<open>_versions\<close> sub-collection of the path.\<close>

definition createVersionSnapshot ::
  "env \<Rightarrow> world \<Rightarrow> string \<Rightarrow> json option \<Rightarrow> int \<Rightarrow> string \<Rightarrow> string \<Rightarrow> string option \<Rightarrow>
   bool \<Rightarrow> int option \<Rightarrow> thrown + (string \<times> world)" where
  "createVersionSnapshot e w docPath c ver uid uemail descr isRb rbFrom =
     (let versionDoc =
            \<lparr>versionId = snapshotUuid e, cv_version = ver, contentSnapshot = c,
             cv_createdAt = snapshotNow e, cv_createdBy = uid, createdByEmail = Some uemail,
             changeDescription = descr, isRollback = isRb, rolledBackFrom = rbFrom\<rparr>
      in (case snapshotAddError e of
            Some err \<Rightarrow> Inl err
          | None \<Rightarrow>
              Inr (snapshotDocId e,
                   w\<lparr>versions := (versions w)
                        (docPath := versions w docPath @ [(snapshotDocId e, versionDoc)])\<rparr>)))"

text \<open>\<^verbatim>\<open>getVersion\<close>: the first row of the query \<^verbatim>\<open>where('version', '==', version), limit(1)\<close>,
  with the row's document id as \<^verbatim>\<open>versionId\<close>.\<close>

definition getVersion ::
  "env \<Rightarrow> world \<Rightarrow> string \<Rightarrow> int \<Rightarrow> thrown + content_version option" where
  "getVersion e w docPath ver =
     (case queryError e of
        Some err \<Rightarrow> Inl err
      | None \<Rightarrow>
          Inr (case filter (\<lambda>row. cv_version (snd row) = ver) (versions w docPath) of
                 [] \<Rightarrow> None
               | row # _ \<Rightarrow> Some ((snd row)\<lparr>versionId := fst row\<rparr>)))"

text \<open>The object literal \<^verbatim>\<open>newDoc\<close> of the transaction callback in \<^verbatim>\<open>saveContent\<close>;
  \<open>currentMeta\<close> is \<^verbatim>\<open>currentData?._meta\<close>.\<close>

definition saveNewDoc ::
  "int \<Rightarrow> content_meta option \<Rightarrow> int \<Rightarrow> jobject \<Rightarrow> save_content_options \<Rightarrow>
   versioned_document" where
  "saveNewDoc now currentMeta newV c opts =
     \<lparr>content = Some (JObj c),
      meta = Some
        \<lparr>version = newV,
         status = (if publish opts then PUBLISHED
                   else (case currentMeta of None \<Rightarrow> DRAFT | Some m \<Rightarrow> status m)),
         createdAt = (case currentMeta of
                        None \<Rightarrow> now
                      | Some m \<Rightarrow> if createdAt m = 0 then now else createdAt m),
         createdBy = (case currentMeta of
                        None \<Rightarrow> opt_userId opts
                      | Some m \<Rightarrow> if createdBy m = [] then opt_userId opts else createdBy m),
         updatedAt = now,
         updatedBy = opt_userId opts,
         publishedAt = (if publish opts then Some now
                        else (case currentMeta of None \<Rightarrow> None | Some m \<Rightarrow> publishedAt m)),
         publishedBy = (if publish opts then Some (opt_userId opts)
                        else (case currentMeta of None \<Rightarrow> None | Some m \<Rightarrow> publishedBy m))\<rparr>\<rparr>"

text \<open>The callback of \<^verbatim>\<open>runTransaction\<close> in \<^verbatim>\<open>saveContent\<close>, with the read before it and the
  commit after it.\<close>

definition saveTransaction ::
  "env \<Rightarrow> world \<Rightarrow> string \<Rightarrow> jobject \<Rightarrow> save_content_options \<Rightarrow> thrown + (tx_result \<times> world)" where
  "saveTransaction e w docPath c opts =
     (case txGetError e of
        Some err \<Rightarrow> Inl err
      | None \<Rightarrow>
          let currentData = docs w docPath;
              exists = (currentData \<noteq> None);
              currentMeta = (case currentData of None \<Rightarrow> None | Some d \<Rightarrow> meta d);
              currentVersion = currentVersionOf currentData
          in if expectedVersion opts \<noteq> None \<and> Some currentVersion \<noteq> expectedVersion opts
             then Inl (Thrown (conflictMessage (the (expectedVersion opts)) currentVersion) None)
             else
               let newV = currentVersion + 1;
                   now = txNow e;
                   newDoc = saveNewDoc now currentMeta newV c opts
               in (case txCommitError e of
                     Some err \<Rightarrow> Inl err
                   | None \<Rightarrow>
                       Inr (\<lparr>newVersion = newV,
                             previousContent =
                               (if exists
                                then (case currentData of None \<Rightarrow> None
                                      | Some d \<Rightarrow> content d)
                                else None),
                             previousVersion = currentVersion\<rparr>,
                            w\<lparr>docs := (docs w)(docPath \<mapsto> newDoc)\<rparr>)))"

text \<open>\<^verbatim>\<open>if (result.previousContent)\<close>.\<close>

definition truthy_opt :: "json option \<Rightarrow> bool" where
  "truthy_opt v = (case v of None \<Rightarrow> False | Some j \<Rightarrow> truthy j)"

text \<open>\<^verbatim>\<open>VersionManager.saveContent\<close>. The clean-up of old versions that follows the snapshot
  only reads the sub-collection and prints; it is not awaited and its failure is
  caught, so it has no part in the result or in the state.\<close>

definition VersionManager_saveContent ::
  "env \<Rightarrow> world \<Rightarrow> string \<Rightarrow> string \<Rightarrow> jobject \<Rightarrow> save_content_options \<Rightarrow>
   int operation_result \<times> world" where
  "VersionManager_saveContent e w docPath contentType c opts =
     (case saveTransaction e w docPath c opts of
        Inl err \<Rightarrow> (failed ''Failed to save content'' err, w)
      | Inr (res, w1) \<Rightarrow>
          (case (if truthy_opt (previousContent res)
                 then createVersionSnapshot e w1 docPath (previousContent res)
                        (previousVersion res) (opt_userId opts) (opt_userEmail opts)
                        (opt_changeDescription opts) False None
                 else Inr ([], w1)) of
             Inl err \<Rightarrow> (failed ''Failed to save content'' err, w1)
           | Inr (_, w2) \<Rightarrow>
               (\<lparr>success = True, data = Some (newVersion res), error = None, errorCode = None\<rparr>,
                w2)))"

text \<open>The callback of \<^verbatim>\<open>runTransaction\<close> in \<^verbatim>\<open>rollbackToVersion\<close>.\<close>

definition rollbackTransaction ::
  "env \<Rightarrow> world \<Rightarrow> string \<Rightarrow> content_version \<Rightarrow> rollback_options \<Rightarrow>
   thrown + (tx_result \<times> world)" where
  "rollbackTransaction e w docPath targetVersionDoc opts =
     (case txGetError e of
        Some err \<Rightarrow> Inl err
      | None \<Rightarrow>
          (case docs w docPath of
             None \<Rightarrow> Inl (Thrown ''Document does not exist'' None)
           | Some currentData \<Rightarrow>
               (case meta currentData of
                  None \<Rightarrow>
                    Inl (Thrown (''Cannot read properties of undefined (reading '' @
                                 [CHR 0x27] @ ''version'' @ [CHR 0x27] @ '')'') None)
                | Some m \<Rightarrow>
                    let currentVersion = version m;
                        newV = currentVersion + 1;
                        now = txNow e;
                        newDoc =
                          \<lparr>content = contentSnapshot targetVersionDoc,
                           meta = Some (m\<lparr>version := newV, updatedAt := now,
                                          updatedBy := rb_userId opts\<rparr>)\<rparr>
                    in (case txCommitError e of
                          Some err \<Rightarrow> Inl err
                        | None \<Rightarrow>
                            Inr (\<lparr>newVersion = newV,
                                  previousContent = content currentData,
                                  previousVersion = currentVersion\<rparr>,
                                 w\<lparr>docs := (docs w)(docPath \<mapsto> newDoc)\<rparr>)))))"

definition rollbackToVersion ::
  "env \<Rightarrow> world \<Rightarrow> string \<Rightarrow> string \<Rightarrow> rollback_options \<Rightarrow> string \<Rightarrow>
   rollback_data operation_result \<times> world" where
  "rollbackToVersion e w docPath contentType opts urole =
     (case getVersion e w docPath (targetVersion opts) of
        Inl err \<Rightarrow> (failed ''Failed to rollback content'' err, w)
      | Inr None \<Rightarrow>
          (\<lparr>success = False, data = None,
            error = Some (''Version '' @ numberToString (targetVersion opts) @ '' not found''),
            errorCode = Some ''VERSION_NOT_FOUND''\<rparr>, w)
      | Inr (Some targetVersionDoc) \<Rightarrow>
          (case rollbackTransaction e w docPath targetVersionDoc opts of
             Inl err \<Rightarrow> (failed ''Failed to rollback content'' err, w)
           | Inr (res, w1) \<Rightarrow>
               (case createVersionSnapshot e w1 docPath (previousContent res)
                       (previousVersion res) (rb_userId opts) (rb_userEmail opts)
                       (Some (''Rollback to version '' @ numberToString (targetVersion opts)))
                       True (Some (targetVersion opts)) of
                  Inl err \<Rightarrow> (failed ''Failed to rollback content'' err, w1)
                | Inr (_, w2) \<Rightarrow>
                    (case logContentRollback e w2 (rb_userId opts) (rb_userEmail opts) urole
                            contentType docPath docPath (previousContent res)
                            (contentSnapshot targetVersionDoc) (previousVersion res)
                            (targetVersion opts) True None of
                       Inl err \<Rightarrow> (failed ''Failed to rollback content'' err, w2)
                     | Inr (_, w3) \<Rightarrow>
                         (\<lparr>success = True,
                           data = Some \<lparr>rb_version = newVersion res,
                                        restoredVersion = targetVersion opts\<rparr>,
                           error = None, errorCode = None\<rparr>, w3)))))"

text \<open>\<^verbatim>\<open>getCurrentContent\<close>: a read outside any transaction.\<close>

definition getCurrentContent ::
  "env \<Rightarrow> world \<Rightarrow> string \<Rightarrow> thrown + versioned_document option" where
  "getCurrentContent e w docPath =
     (case getDocError e of Some err \<Rightarrow> Inl err | None \<Rightarrow> Inr (docs w docPath))"

section \<open>Content Service (content-service.ts, in src/src/lib/db/analytics.ts)\<close>

record save_options =
  user :: admin_user
  so_changeDescription :: "string option"
  so_expectedVersion :: "int option"
  so_publish :: bool
  skipValidation :: bool
  skipSanitization :: bool

definition checkPermission :: "admin_user \<Rightarrow> permission \<Rightarrow> thrown + bool" where
  "checkPermission usr p = (if \<not> isActive usr then Inr False else hasPermission (role usr) p)"

definition ensurePermission :: "admin_user \<Rightarrow> permission \<Rightarrow> thrown + unit" where
  "ensurePermission usr p =
     (case checkPermission usr p of
        Inl err \<Rightarrow> Inl err
      | Inr ok \<Rightarrow>
          if \<not> ok
          then Inl (Thrown (''Insufficient permissions: '' @ permission_string p @ '' required'')
                      None)
          else Inr ())"

text \<open>The keys of \<^verbatim>\<open>ContentTypeRegistry\<close>. The schemas are zod objects: \<open>schemas t c\<close> stands for
  the issues that the schema registered for \<open>t\<close> reports on \<open>c\<close>, each formatted as
  \<^verbatim>\<open>path: message\<close>, and is empty when \<^verbatim>\<open>parse\<close> accepts \<open>c\<close>.\<close>

definition ContentTypeKeys :: "string list" where
  "ContentTypeKeys = [''site-config'', ''social-links'', ''footer'', ''hero'', ''about'', ''legal'']"

text \<open>\<^verbatim>\<open>validateContentForType\<close>. A content type that names a property of
  \<^verbatim>\<open>Object.prototype\<close> finds a value without \<^verbatim>\<open>schema\<close>: the \<^verbatim>\<open>TypeError\<close> is caught as an
  unknown validation error.\<close>

definition validateContentForType ::
  "(string \<Rightarrow> jobject \<Rightarrow> string list) \<Rightarrow> regex_state \<Rightarrow> string \<Rightarrow> jobject \<Rightarrow>
   validation_result \<times> regex_state" where
  "validateContentForType schemas st contentType c =
     (if contentType \<in> set ContentTypeKeys
      then (\<lparr>isValid = (schemas contentType c = []), errors = schemas contentType c,
              warnings = []\<rparr>, st)
      else if contentType \<in> set objectPrototypeKeys
      then (\<lparr>isValid = False, errors = [''Unknown validation error''], warnings = []\<rparr>, st)
      else validateContent st c [])"

definition sanitizeContentForType :: "regex_state \<Rightarrow> string \<Rightarrow> jobject \<Rightarrow> jobject \<times> regex_state" where
  "sanitizeContentForType st contentType c = sanitizeObject st c"

text \<open>\<^verbatim>\<open>previousContent || {}\<close>.\<close>

definition or_empty :: "json option \<Rightarrow> json" where
  "or_empty v = (case v of None \<Rightarrow> JObj [] | Some j \<Rightarrow> if truthy j then j else JObj [])"

text \<open>
  \<^verbatim>\<open>ContentService.saveContent\<close>, in two parts. \<open>saveContent_checks\<close> is the method up to
  its \<^verbatim>\<open>try\<close>: the permission guard, the read of the previous content, validation,
  sanitization and the second check for dangerous content. \<open>Inl\<close> is an exception that
  leaves the method (the guard and the read are outside the \<^verbatim>\<open>try\<close>), \<open>Inr (Inl r)\<close> an
  early \<^verbatim>\<open>return\<close>, \<open>Inr (Inr (sanitizedContent, previousContent, w))\<close> the values with
  which the method goes on.
\<close>

definition saveContent_checks ::
  "(string \<Rightarrow> jobject \<Rightarrow> string list) \<Rightarrow> env \<Rightarrow> world \<Rightarrow> string \<Rightarrow> string \<Rightarrow> jobject \<Rightarrow>
   save_options \<Rightarrow>
   thrown + ((int operation_result \<times> world) + (jobject \<times> json option \<times> world))" where
  "saveContent_checks schemas e w docPath contentType c opts =
     (case ensurePermission (user opts) CONTENT_UPDATE of
        Inl err \<Rightarrow> Inl err
      | Inr _ \<Rightarrow>
     (case (if so_publish opts then ensurePermission (user opts) CONTENT_PUBLISH else Inr ()) of
        Inl err \<Rightarrow> Inl err
      | Inr _ \<Rightarrow>
     (case getCurrentContent e w docPath of
        Inl err \<Rightarrow> Inl err
      | Inr previousDoc \<Rightarrow>
          let prevContent = (case previousDoc of None \<Rightarrow> None | Some d \<Rightarrow> content d);
              (validation, st1) =
                (if \<not> skipValidation opts
                 then validateContentForType schemas (patterns w) contentType c
                 else (\<lparr>isValid = True, errors = [], warnings = []\<rparr>, patterns w))
          in if \<not> isValid validation
             then Inr (Inl (\<lparr>success = False, data = None,
                             error = Some (''Validation failed: '' @
                                           join '', '' (errors validation)),
                             errorCode = Some ''VALIDATION_ERROR''\<rparr>,
                            w\<lparr>patterns := st1\<rparr>))
             else
               let (sanitizedContent, dangerous, st2) =
                     (if \<not> skipSanitization opts
                      then (case sanitizeContentForType st1 contentType c of
                              (sc, s2) \<Rightarrow>
                                (case containsDangerousContent s2 (stringify (JObj sc)) of
                                   (d, s3) \<Rightarrow> (sc, d, s3)))
                      else (c, False, st1))
               in if dangerous
                  then Inr (Inl (\<lparr>success = False, data = None,
                                  error = Some ''Content contains potentially dangerous patterns'',
                                  errorCode = Some ''DANGEROUS_CONTENT''\<rparr>,
                                 w\<lparr>patterns := st2\<rparr>))
                  else Inr (Inr (sanitizedContent, prevContent, w\<lparr>patterns := st2\<rparr>)))))"

text \<open>The options object that \<^verbatim>\<open>ContentService.saveContent\<close> passes to the Version Manager.\<close>

definition toSaveContentOptions :: "save_options \<Rightarrow> save_content_options" where
  "toSaveContentOptions opts =
     \<lparr>opt_userId = user_id (user opts),
      opt_userEmail = email (user opts),
      opt_changeDescription = so_changeDescription opts,
      expectedVersion = so_expectedVersion opts,
      publish = so_publish opts\<rparr>"

text \<open>The \<^verbatim>\<open>try\<close> block of \<^verbatim>\<open>ContentService.saveContent\<close> and its \<^verbatim>\<open>catch\<close>: the versioned
  save, then the audit entry of a success; an exception inside the block is audited as a
  failure.\<close>

definition saveContent_try ::
  "env \<Rightarrow> world \<Rightarrow> string \<Rightarrow> string \<Rightarrow> jobject \<Rightarrow> json option \<Rightarrow> save_options \<Rightarrow>
   thrown + (int operation_result \<times> world)" where
  "saveContent_try e w docPath contentType sanitizedContent prevContent opts =
     (case VersionManager_saveContent e w docPath contentType sanitizedContent
             (toSaveContentOptions opts) of
        (result, w1) \<Rightarrow>
          (case (if success result \<and> data result \<noteq> None
                 then logContentUpdate e w1 (user_id (user opts)) (email (user opts))
                        (role (user opts)) contentType docPath docPath
                        (or_empty prevContent) (JObj sanitizedContent) True None
                 else Inr ([], w1)) of
             Inr (_, w2) \<Rightarrow> Inr (result, w2)
           | Inl err \<Rightarrow>
               (case logContentUpdate e w1 (user_id (user opts)) (email (user opts))
                       (role (user opts)) contentType docPath docPath
                       (or_empty prevContent) (JObj sanitizedContent) False
                       (Some (message err)) of
                  Inl err2 \<Rightarrow> Inl err2
                | Inr (_, w2) \<Rightarrow> Inr (failed ''Failed to save content'' err, w2))))"

definition ContentService_saveContent ::
  "(string \<Rightarrow> jobject \<Rightarrow> string list) \<Rightarrow> env \<Rightarrow> world \<Rightarrow> string \<Rightarrow> string \<Rightarrow> jobject \<Rightarrow>
   save_options \<Rightarrow> thrown + (int operation_result \<times> world)" where
  "ContentService_saveContent schemas e w docPath contentType c opts =
     (case saveContent_checks schemas e w docPath contentType c opts of
        Inl err \<Rightarrow> Inl err
      | Inr (Inl early) \<Rightarrow> Inr early
      | Inr (Inr (sanitizedContent, prevContent, w')) \<Rightarrow>
          saveContent_try e w' docPath contentType sanitizedContent prevContent opts)"

text \<open>A client that saves to one path again and again: the calls of
  \<^verbatim>\<open>VersionManager.saveContent\<close> in order, each with its own environment, content and
  options. The results are returned in the order of the calls.\<close>

fun run_saves ::
  "world \<Rightarrow> string \<Rightarrow> string \<Rightarrow> (env \<times> jobject \<times> save_content_options) list \<Rightarrow>
   int operation_result list \<times> world" where
  "run_saves w docPath contentType [] = ([], w)"
| "run_saves w docPath contentType ((e, c, opts) # calls) =
     (case VersionManager_saveContent e w docPath contentType c opts of
        (r, w1) \<Rightarrow>
          (case run_saves w1 docPath contentType calls of (rs, w2) \<Rightarrow> (r # rs, w2)))"

section \<open>Vocabulary and example inputs for the properties\<close>

text \<open>The content of the live document at a path, if there is one, and the version numbers
  and contents of the snapshots of a path in the order they were added.\<close>

definition prior_content :: "world \<Rightarrow> string \<Rightarrow> json option" where
  "prior_content w p = (case docs w p of None \<Rightarrow> None | Some d \<Rightarrow> content d)"

definition snapshot_index :: "world \<Rightarrow> string \<Rightarrow> (int \<times> json option) list" where
  "snapshot_index w p =
     map (\<lambda>row. (cv_version (snd row), contentSnapshot (snd row))) (versions w p)"

text \<open>An empty store, an environment in which no store operation fails, and the two saves
  of the specification's end-to-end example: U1 creates the document, then a second
  save expects version 1.\<close>

definition empty_world :: world where
  "empty_world =
     \<lparr>docs = (\<lambda>_. None), versions = (\<lambda>_. []), audit_logs = [], patterns = initial_patterns\<rparr>"

definition quiet_env :: env where
  "quiet_env =
     \<lparr>getDocError = None, txGetError = None, txCommitError = None, queryError = None,
      snapshotAddError = None, auditAddError = None,
      txNow = 1000, snapshotNow = 1001, auditNow = 1002,
      snapshotUuid = ''uuid-s'', snapshotDocId = ''doc-s'',
      auditUuid = ''uuid-a'', auditDocId = ''doc-a'', navigatorUserAgent = None\<rparr>"

definition later_env :: env where
  "later_env =
     quiet_env\<lparr>txNow := 2000, snapshotNow := 2001, auditNow := 2002,
               snapshotUuid := ''uuid-s2'', snapshotDocId := ''doc-s2'',
               auditUuid := ''uuid-a2'', auditDocId := ''doc-a2''\<rparr>"

definition opts_by :: "string \<Rightarrow> int option \<Rightarrow> save_content_options" where
  "opts_by uid ev =
     \<lparr>opt_userId = uid, opt_userEmail = uid @ ''@chariotek.com'',
      opt_changeDescription = None, expectedVersion = ev, publish = False\<rparr>"

definition content_v1 :: jobject where
  "content_v1 = [(''title'', JStr ''Chariotek'')]"

definition content_v2 :: jobject where
  "content_v2 = [(''title'', JStr ''Chariotek Studio'')]"

definition home :: string where
  "home = ''pages/home''"

definition two_saves :: "(env \<times> jobject \<times> save_content_options) list" where
  "two_saves = [(quiet_env, content_v1, opts_by ''U1'' None),
                (later_env, content_v2, opts_by ''U2'' (Some 1))]"

text \<open>A rollback to version 1 by a third user, and a save through the Content Service
  whose content has a dangerous key.\<close>

definition rollback_env :: env where
  "rollback_env =
     quiet_env\<lparr>txNow := 3000, snapshotNow := 3001, auditNow := 3002,
               snapshotUuid := ''uuid-s3'', snapshotDocId := ''doc-s3'',
               auditUuid := ''uuid-a3'', auditDocId := ''doc-a3''\<rparr>"

definition rollback_opts :: rollback_options where
  "rollback_opts =
     \<lparr>rb_userId = ''U3'', rb_userEmail = ''U3@chariotek.com'', targetVersion = 1\<rparr>"

definition admin_U1 :: admin_user where
  "admin_U1 =
     \<lparr>user_id = ''U1'', email = ''U1@chariotek.com'', role = ''admin'', isActive = True\<rparr>"

definition service_opts :: save_options where
  "service_opts =
     \<lparr>user = admin_U1, so_changeDescription = None, so_expectedVersion = None,
      so_publish = False, skipValidation = True, skipSanitization = False\<rparr>"

definition dangerous_key_content :: jobject where
  "dangerous_key_content = [(''javascript:'', JNum 1)]"

definition no_schemas :: "string \<Rightarrow> jobject \<Rightarrow> string list" where
  "no_schemas t c = []"

text \<open>What an invocation of the Content Service returned, with the audit log it left; the
  state of the patterns after one test of the dangerous key; an environment in which the
  audit append throws; a deactivated user.\<close>

definition outcome_with_audit ::
  "thrown + (int operation_result \<times> world) \<Rightarrow>
   thrown + (int operation_result \<times> (string \<times> audit_log) list)" where
  "outcome_with_audit x = map_sum id (\<lambda>rw. (fst rw, audit_logs (snd rw))) x"

definition seen_patterns :: regex_state where
  "seen_patterns = [0, 13, 0, 0, 0, 0, 0, 0, 0, 0, 0, 0, 0, 0, 0, 0, 0, 0]"

definition failing_audit_env :: env where
  "failing_audit_env = quiet_env\<lparr>auditAddError := Some (Thrown ''unavailable'' (Some ''unavailable''))\<rparr>"

definition inactive_options :: save_options where
  "inactive_options = service_opts\<lparr>user := admin_U1\<lparr>isActive := False\<rparr>\<rparr>"

text \<open>Version, creator and creation time of each snapshot of a path, and version, last
  author and time of the last write of the live document.\<close>

definition snapshot_authors :: "world \<Rightarrow> string \<Rightarrow> (int \<times> string \<times> int) list" where
  "snapshot_authors w p =
     map (\<lambda>row. (cv_version (snd row), cv_createdBy (snd row), cv_createdAt (snd row)))
         (versions w p)"

definition document_author :: "world \<Rightarrow> string \<Rightarrow> (int \<times> string \<times> int) option" where
  "document_author w p =
     (case docs w p of
        None \<Rightarrow> None
      | Some d \<Rightarrow>
          (case meta d of None \<Rightarrow> None | Some m \<Rightarrow> Some (version m, updatedBy m, updatedAt m)))"

definition example_title :: string where
  "example_title = ''  Hello <script>alert(1)</script> World  ''"

definition escaped_chars :: "char list" where
  "escaped_chars = [CHR ''<'', CHR ''>'', CHR 0x22, CHR 0x27, CHR 0x60, CHR ''='', CHR ''/'']"

section \<open>Properties of the Sanitizer\<close>

lemma sanitizeTitle_state_free:
  "fst (sanitizeTitle st input) = fst (sanitizeTitle [] input)"
  by (simp add: sanitizeTitle_def removeDangerousContent_def Let_def split: option.splits)

lemma sanitizeTitle_hello:
  "fst (sanitizeTitle [] (Some example_title)) = ''Hello  World''"
  by code_simp

lemma escapeHtml_chars: "set (escapeHtml s) \<inter> set escaped_chars = {}"
  by (induction s) (auto simp: escapeHtml_def htmlEntities_def escaped_chars_def split: if_splits)

lemma sanitizeTitle_escaped: "set (fst (sanitizeTitle st input)) \<inter> set escaped_chars = {}"
proof -
  have sub: "set (take n xs) \<inter> B = {}" if "set xs \<inter> B = {}" for n and xs :: string and B
    using that set_take_subset [of n xs] by blast
  show ?thesis
    using escapeHtml_chars sub
    by (auto simp: sanitizeTitle_def removeDangerousContent_def Let_def
             split: option.splits dest: in_set_takeD)
qed

lemma sanitizeTitle_length: "length (fst (sanitizeTitle st input)) \<le> TITLE"
  by (simp add: sanitizeTitle_def removeDangerousContent_def Let_def
           split: option.splits prod.splits)

text \<open>
  C9. Whatever the state of the patterns, \<^verbatim>\<open>sanitizeTitle\<close> of the example title is
  \<^verbatim>\<open>Hello  World\<close>: it holds no \<^verbatim>\<open><script\<close>, no \<^verbatim>\<open>javascript:\<close> and no line break.
  For every input, the result holds none of the characters that \<^verbatim>\<open>escapeHtml\<close> replaces
  by an entity (apart from the ampersand of the entities themselves) and is at most
  200 code units long.
\<close>

theorem sanitizeTitle_example_and_cap:
  "fst (sanitizeTitle st (Some example_title)) = ''Hello  World''
   \<and> \<not> str_includes (fst (sanitizeTitle st (Some example_title))) ''<script''
   \<and> \<not> str_includes (fst (sanitizeTitle st (Some example_title))) ''javascript:''
   \<and> CHR 0x0A \<notin> set (fst (sanitizeTitle st (Some example_title)))
   \<and> CHR 0x0D \<notin> set (fst (sanitizeTitle st (Some example_title)))
   \<and> set (fst (sanitizeTitle st' input)) \<inter> set escaped_chars = {}
   \<and> length (fst (sanitizeTitle st' input)) \<le> 200"
proof -
  have out: "fst (sanitizeTitle st (Some example_title)) = ''Hello  World''"
    using sanitizeTitle_state_free [of st] sanitizeTitle_hello by simp
  have cap: "length (fst (sanitizeTitle st' input)) \<le> 200"
    using sanitizeTitle_length [of st' input] by (simp add: TITLE_def)
  show ?thesis
    unfolding out using cap sanitizeTitle_escaped [of st' input] by simp
qed

theorem sanitizeTitle_example_and_cap_witness:
  "fst (sanitizeTitle initial_patterns (Some example_title)) = ''Hello  World''
   \<and> \<not> str_includes (fst (sanitizeTitle initial_patterns (Some example_title))) ''<script''
   \<and> length (fst (sanitizeTitle initial_patterns (Some ''a<b''))) \<le> 200"
  using sanitizeTitle_example_and_cap [of initial_patterns initial_patterns "Some ''a<b''"]
  by simp

lemma containsDangerousContent_twice:
  "containsDangerousContent initial_patterns ''javascript:'' =
     (True, [0, 11, 0, 0, 0, 0, 0, 0, 0, 0, 0, 0, 0, 0, 0, 0, 0, 0])
   \<and> containsDangerousContent
         (snd (containsDangerousContent initial_patterns ''javascript:'')) ''javascript:'' =
     (False, initial_patterns)"
  by code_simp

section \<open>Properties of the access decision\<close>

lemma hasPermission_valid:
  "isValidRole r \<Longrightarrow> hasPermission r p = Inr (p \<in> set (the (map_of RolePermissions r)))"
  by (auto simp: isValidRole_def UserRole_values_def hasPermission_def RolePermissions_def)

text \<open>
  C8. \<^verbatim>\<open>makeAccessDecision\<close> checks, in this order, that there is a user, that the user is
  active, that the role is valid and that the role has the permission; the first check
  that fails decides the result, whatever the later ones would say: not allowed, with
  the reason \<^verbatim>\<open>User not authenticated\<close>, \<^verbatim>\<open>User account is deactivated\<close>,
  \<^verbatim>\<open>Invalid user role\<close> or \<^verbatim>\<open>Missing required permission:\<close> followed by the permission
  (which is then also returned as \<^verbatim>\<open>requiredPermission\<close>). It never throws, and it allows,
  without a reason, exactly when all four checks pass.
\<close>

theorem makeAccessDecision_order:
  "(u = None \<longrightarrow> makeAccessDecision u p =
            Inr \<lparr>allowed = False, reason = Some ''User not authenticated'', requiredPermission = None\<rparr>)
   \<and> (u = Some usr \<and> \<not> isActive usr \<longrightarrow>
          makeAccessDecision u p =
            Inr \<lparr>allowed = False, reason = Some ''User account is deactivated'', requiredPermission = None\<rparr>)
   \<and> (u = Some usr \<and> isActive usr \<and> \<not> isValidRole (role usr) \<longrightarrow>
          makeAccessDecision u p =
            Inr \<lparr>allowed = False, reason = Some ''Invalid user role'', requiredPermission = None\<rparr>)
   \<and> (u = Some usr \<and> isActive usr \<and> isValidRole (role usr)
          \<and> hasPermission (role usr) p = Inr False \<longrightarrow>
          makeAccessDecision u p =
            Inr \<lparr>allowed = False,
                 reason = Some (''Missing required permission: '' @ permission_string p),
                 requiredPermission = Some p\<rparr>)
   \<and> (u = Some usr \<and> isActive usr \<and> isValidRole (role usr)
          \<and> hasPermission (role usr) p = Inr True \<longrightarrow>
          makeAccessDecision u p =
            Inr \<lparr>allowed = True, reason = None, requiredPermission = None\<rparr>)
   \<and> (isValidRole (role usr) \<longrightarrow> (\<exists>b. hasPermission (role usr) p = Inr b))
   \<and> (\<exists>d. makeAccessDecision u p = Inr d \<and>
          (allowed d \<longleftrightarrow>
             (\<exists>v. u = Some v \<and> isActive v \<and> isValidRole (role v)
                   \<and> hasPermission (role v) p = Inr True)))"
proof -
  have valid: "\<exists>b. hasPermission r p = Inr b" if "isValidRole r" for r
    using hasPermission_valid [OF that] by blast
  show ?thesis
  proof (cases u)
    case None
    then show ?thesis using valid by (simp add: makeAccessDecision_def)
  next
    case (Some v)
    show ?thesis
    proof (cases "isActive v \<and> isValidRole (role v)")
      case False
      then show ?thesis using Some valid
        by (auto simp: makeAccessDecision_def)
    next
      case True
      then obtain b where b: "hasPermission (role v) p = Inr b" using valid by blast
      show ?thesis using Some True b valid
        by (cases b) (auto simp: makeAccessDecision_def)
    qed
  qed
qed

theorem makeAccessDecision_order_witness:
  "makeAccessDecision None CONTENT_DELETE =
            Inr \<lparr>allowed = False, reason = Some ''User not authenticated'', requiredPermission = None\<rparr>
   \<and> makeAccessDecision
        (Some \<lparr>user_id = ''u1'', email = ''e@x.io'', role = ''nobody'', isActive = False\<rparr>)
        CONTENT_DELETE =
            Inr \<lparr>allowed = False, reason = Some ''User account is deactivated'', requiredPermission = None\<rparr>
   \<and> makeAccessDecision
        (Some \<lparr>user_id = ''u1'', email = ''e@x.io'', role = ''nobody'', isActive = True\<rparr>)
        CONTENT_DELETE =
            Inr \<lparr>allowed = False, reason = Some ''Invalid user role'', requiredPermission = None\<rparr>
   \<and> makeAccessDecision
        (Some \<lparr>user_id = ''u1'', email = ''e@x.io'', role = ''editor'', isActive = True\<rparr>)
        CONTENT_DELETE =
        Inr \<lparr>allowed = False, reason = Some ''Missing required permission: content:delete'',
             requiredPermission = Some CONTENT_DELETE\<rparr>
   \<and> makeAccessDecision
        (Some \<lparr>user_id = ''u1'', email = ''e@x.io'', role = ''admin'', isActive = True\<rparr>)
        CONTENT_DELETE = Inr \<lparr>allowed = True, reason = None, requiredPermission = None\<rparr>"
proof -
  let ?u = "\<lambda>r a. \<lparr>user_id = ''u1'', email = ''e@x.io'', role = r, isActive = a\<rparr>"
  have e: "hasPermission ''editor'' CONTENT_DELETE = Inr False"
    by (simp add: hasPermission_def RolePermissions_def)
  have a: "hasPermission ''admin'' CONTENT_DELETE = Inr True"
    by (simp add: hasPermission_def RolePermissions_def)
  have v: "isValidRole ''editor''" "isValidRole ''admin''" "\<not> isValidRole ''nobody''"
    by (simp_all add: isValidRole_def UserRole_values_def)
  have 1: "makeAccessDecision None CONTENT_DELETE =
            Inr \<lparr>allowed = False, reason = Some ''User not authenticated'', requiredPermission = None\<rparr>"
    using makeAccessDecision_order [of None CONTENT_DELETE] by simp
  have 2: "makeAccessDecision (Some (?u ''nobody'' False)) CONTENT_DELETE =

            Inr \<lparr>allowed = False, reason = Some ''User account is deactivated'', requiredPermission = None\<rparr>"
    using makeAccessDecision_order
      [of "Some (?u ''nobody'' False)" CONTENT_DELETE "?u ''nobody'' False"]
    by simp
  have 3: "makeAccessDecision (Some (?u ''nobody'' True)) CONTENT_DELETE =

            Inr \<lparr>allowed = False, reason = Some ''Invalid user role'', requiredPermission = None\<rparr>"
    using makeAccessDecision_order
      [of "Some (?u ''nobody'' True)" CONTENT_DELETE "?u ''nobody'' True"] v
    by simp
  have 4: "makeAccessDecision (Some (?u ''editor'' True)) CONTENT_DELETE =
      Inr \<lparr>allowed = False, reason = Some ''Missing required permission: content:delete'',
           requiredPermission = Some CONTENT_DELETE\<rparr>"
    using makeAccessDecision_order
      [of "Some (?u ''editor'' True)" CONTENT_DELETE "?u ''editor'' True"] v e
    by simp
  have 5: "makeAccessDecision (Some (?u ''admin'' True)) CONTENT_DELETE =
      Inr \<lparr>allowed = True, reason = None, requiredPermission = None\<rparr>"
    using makeAccessDecision_order
      [of "Some (?u ''admin'' True)" CONTENT_DELETE "?u ''admin'' True"] v a
    by simp
  show ?thesis using 1 2 3 4 5 by simp
qed

section \<open>Properties of the Version Manager\<close>

lemma str_includes_append: "str_includes (xs @ w @ ys) w"
proof (induction xs)
  case Nil
  show ?case
  proof (cases "w @ ys")
    case Nil
    then show ?thesis by simp
  next
    case (Cons a l)
    have "take (length w) (w @ ys) = w" by simp
    then have "take (length w) (a # l) = w" unfolding Cons .
    then show ?thesis using Cons by simp
  qed
next
  case (Cons x xs)
  then show ?case by simp
qed

lemma conflictMessage_names:
  "str_includes (conflictMessage ev cur) (numberToString ev)
   \<and> str_includes (conflictMessage ev cur) (numberToString cur)"
proof -
  have a: "str_includes (conflictMessage ev cur) (numberToString ev)"
    unfolding conflictMessage_def by (rule str_includes_append)
  have "conflictMessage ev cur =
      (''Version conflict: expected version '' @ numberToString ev @
       '', but current version is '') @ numberToString cur @
      (''. '' @ ''Please refresh and try again.'')"
    by (simp add: conflictMessage_def)
  then have b: "str_includes (conflictMessage ev cur) (numberToString cur)"
    using str_includes_append by metis
  show ?thesis using a b by simp
qed

text \<open>The transaction of \<^verbatim>\<open>saveContent\<close> with its local bindings unfolded.\<close>

lemma saveTransaction_eq:
  "saveTransaction e w p c opts =
     (case txGetError e of
        Some err \<Rightarrow> Inl err
      | None \<Rightarrow>
          if expectedVersion opts \<noteq> None
             \<and> expectedVersion opts \<noteq> Some (currentVersionOf (docs w p))
          then Inl (Thrown (conflictMessage (the (expectedVersion opts))
                              (currentVersionOf (docs w p))) None)
          else (case txCommitError e of
                  Some err \<Rightarrow> Inl err
                | None \<Rightarrow>
                    Inr (\<lparr>newVersion = currentVersionOf (docs w p) + 1,
                          previousContent = prior_content w p,
                          previousVersion = currentVersionOf (docs w p)\<rparr>,
                         w\<lparr>docs := (docs w)(p \<mapsto>
                              saveNewDoc (txNow e)
                                (case docs w p of None \<Rightarrow> None | Some d \<Rightarrow> meta d)
                                (currentVersionOf (docs w p) + 1) c opts)\<rparr>)))"
proof -
  have pc: "(if docs w p \<noteq> None
             then (case docs w p of None \<Rightarrow> None | Some d \<Rightarrow> content d) else None)
      = prior_content w p"
    by (simp add: prior_content_def split: option.splits)
  have ne: "(Some (currentVersionOf (docs w p)) \<noteq> expectedVersion opts)
      = (expectedVersion opts \<noteq> Some (currentVersionOf (docs w p)))"
    by auto
  show ?thesis
    unfolding saveTransaction_def Let_def pc ne by (rule refl)
qed

lemma saveTransaction_Inr:
  assumes "saveTransaction e w p c opts = Inr (res, w1)"
  shows "newVersion res = currentVersionOf (docs w p) + 1
     \<and> previousVersion res = currentVersionOf (docs w p)
     \<and> previousContent res = prior_content w p
     \<and> w1 = w\<lparr>docs := (docs w)(p \<mapsto>
            saveNewDoc (txNow e) (case docs w p of None \<Rightarrow> None | Some d \<Rightarrow> meta d)
              (currentVersionOf (docs w p) + 1) c opts)\<rparr>"
  using assms unfolding saveTransaction_eq
  by (auto split: option.splits if_splits)

lemma saveNewDoc_fields:
  "content (saveNewDoc now cm v c opts) = Some (JObj c)
   \<and> currentVersionOf (Some (saveNewDoc now cm v c opts)) = v"
  by (simp add: saveNewDoc_def currentVersionOf_def)

text \<open>What a save that reports success has done.\<close>

lemma save_success_effect:
  assumes "success (fst (VersionManager_saveContent e w p ct c opts))"
  shows "data (fst (VersionManager_saveContent e w p ct c opts)) =
           Some (currentVersionOf (docs w p) + 1)
     \<and> (\<exists>d. docs (snd (VersionManager_saveContent e w p ct c opts)) p = Some d
            \<and> content d = Some (JObj c))
     \<and> currentVersionOf (docs (snd (VersionManager_saveContent e w p ct c opts)) p) =
           currentVersionOf (docs w p) + 1
     \<and> versions (snd (VersionManager_saveContent e w p ct c opts)) p =
         versions w p @
           (if truthy_opt (prior_content w p)
            then [(snapshotDocId e,
                   \<lparr>versionId = snapshotUuid e, cv_version = currentVersionOf (docs w p),
                    contentSnapshot = prior_content w p, cv_createdAt = snapshotNow e,
                    cv_createdBy = opt_userId opts, createdByEmail = Some (opt_userEmail opts),
                    changeDescription = opt_changeDescription opts, isRollback = False,
                    rolledBackFrom = None\<rparr>)]
            else [])"
proof (cases "saveTransaction e w p c opts")
  case (Inl err)
  then show ?thesis using assms by (simp add: VersionManager_saveContent_def failed_def)
next
  case (Inr pr)
  obtain res w1 where pr: "pr = (res, w1)" by (cases pr)
  note tx = saveTransaction_Inr [OF Inr [unfolded pr]]
  show ?thesis
  proof (cases "truthy_opt (prior_content w p)")
    case False
    then show ?thesis using tx Inr pr saveNewDoc_fields
      by (simp add: VersionManager_saveContent_def)
  next
    case True
    show ?thesis
    proof (cases "snapshotAddError e")
      case None
      then show ?thesis using tx Inr pr True saveNewDoc_fields
        by (simp add: VersionManager_saveContent_def createVersionSnapshot_def Let_def)
    next
      case (Some err)
      then show ?thesis using tx Inr pr True assms
        by (simp add: VersionManager_saveContent_def createVersionSnapshot_def Let_def
                      failed_def)
    qed
  qed
qed

lemma upt_from_1: "[1..<Suc (Suc n)] = 1 # map Suc [1..<Suc n]"
  by (simp add: map_Suc_upt upt_conv_Cons del: upt_Suc)

lemma upt_from_0: "[0..<Suc n] = 0 # map Suc [0..<n]"
  by (simp add: map_Suc_upt upt_conv_Cons del: upt_Suc)

lemma run_saves_versions:
  assumes "list_all success (fst (run_saves w p ct calls))"
  shows "map data (fst (run_saves w p ct calls)) =
           map (\<lambda>k. Some (currentVersionOf (docs w p) + int k)) [1..<Suc (length calls)]
       \<and> currentVersionOf (docs (snd (run_saves w p ct calls)) p) =
           currentVersionOf (docs w p) + int (length calls)"
  using assms
proof (induction calls arbitrary: w)
  case Nil
  then show ?case by simp
next
  case (Cons call calls)
  obtain e c opts where call: "call = (e, c, opts)" by (cases call)
  obtain r w1 where step: "VersionManager_saveContent e w p ct c opts = (r, w1)"
    by (cases "VersionManager_saveContent e w p ct c opts")
  obtain rs w2 where rest: "run_saves w1 p ct calls = (rs, w2)"
    by (cases "run_saves w1 p ct calls")
  have ok: "success r" and oks: "list_all success (fst (run_saves w1 p ct calls))"
    using Cons.prems call step rest by simp_all
  have eff: "data r = Some (currentVersionOf (docs w p) + 1)"
    "currentVersionOf (docs w1 p) = currentVersionOf (docs w p) + 1"
    using save_success_effect [of e w p ct c opts] ok step by simp_all
  note ih = Cons.IH [OF oks]
  have m: "map (\<lambda>k. Some (currentVersionOf (docs w p) + int k)) [1..<Suc (Suc (length calls))]
      = Some (currentVersionOf (docs w p) + 1)
        # map (\<lambda>k. Some (currentVersionOf (docs w p) + 1 + int k)) [1..<Suc (length calls)]"
    unfolding upt_from_1 by (simp add: comp_def add.assoc del: upt_Suc)
  show ?case
    using ih eff m call step rest by (simp del: upt_Suc)
qed

lemma run_saves_snapshots:
  assumes "docs w p = Some d" and "content d = Some (JObj c0)"
    and "list_all success (fst (run_saves w p ct calls))"
  shows "snapshot_index (snd (run_saves w p ct calls)) p =
           snapshot_index w p @
           zip (map (\<lambda>k. currentVersionOf (docs w p) + int k) [0..<length calls])
               (map (\<lambda>c. Some (JObj c)) (butlast (c0 # map (\<lambda>call. fst (snd call)) calls)))"
  using assms
proof (induction calls arbitrary: w d c0)
  case Nil
  then show ?case by simp
next
  case (Cons call calls)
  obtain e c opts where call: "call = (e, c, opts)" by (cases call)
  obtain r w1 where step: "VersionManager_saveContent e w p ct c opts = (r, w1)"
    by (cases "VersionManager_saveContent e w p ct c opts")
  obtain rs w2 where rest: "run_saves w1 p ct calls = (rs, w2)"
    by (cases "run_saves w1 p ct calls")
  have ok: "success r" and oks: "list_all success (fst (run_saves w1 p ct calls))"
    using Cons.prems(3) call step rest by simp_all
  have pc: "prior_content w p = Some (JObj c0)"
    using Cons.prems(1,2) by (simp add: prior_content_def)
  have eff: "\<exists>d1. docs w1 p = Some d1 \<and> content d1 = Some (JObj c)"
    "currentVersionOf (docs w1 p) = currentVersionOf (docs w p) + 1"
    "snapshot_index w1 p = snapshot_index w p @ [(currentVersionOf (docs w p), Some (JObj c0))]"
    using save_success_effect [of e w p ct c opts] ok step pc
    by (simp_all add: snapshot_index_def truthy_opt_def)
  from eff(1) obtain d1 where d1: "docs w1 p = Some d1" "content d1 = Some (JObj c)" by blast
  note ih = Cons.IH [OF d1 oks]
  have m: "map (\<lambda>k. currentVersionOf (docs w p) + int k) [0..<Suc (length calls)]
      = currentVersionOf (docs w p)
        # map (\<lambda>k. currentVersionOf (docs w p) + 1 + int k) [0..<length calls]"
    unfolding upt_from_0 by (simp add: comp_def add.assoc del: upt_Suc)
  show ?case
    using ih eff(2,3) m call step rest by (simp del: upt_Suc)
qed

text \<open>The example evaluated: two saves, then a third save with the stale version 1.\<close>

lemmas save_eval =
  VersionManager_saveContent_def saveTransaction_eq createVersionSnapshot_def
  saveNewDoc_def currentVersionOf_def truthy_opt_def prior_content_def failed_def
  quiet_env_def later_env_def empty_world_def opts_by_def content_v1_def content_v2_def
  two_saves_def home_def Let_def conflictMessage_def numberToString_def snapshot_index_def

lemma two_saves_results:
  "fst (run_saves empty_world home ''page'' two_saves) =
     [\<lparr>success = True, data = Some 1, error = None, errorCode = None\<rparr>,
      \<lparr>success = True, data = Some 2, error = None, errorCode = None\<rparr>]"
  by (simp add: save_eval)

lemma two_saves_versions:
  "versions (snd (run_saves empty_world home ''page'' two_saves)) home =
     [(''doc-s2'',
       \<lparr>versionId = ''uuid-s2'', cv_version = 1, contentSnapshot = Some (JObj content_v1),
        cv_createdAt = 2001, cv_createdBy = ''U2'', createdByEmail = Some ''U2@chariotek.com'',
        changeDescription = None, isRollback = False, rolledBackFrom = None\<rparr>)]"
  by (simp add: save_eval)

lemma two_saves_doc:
  "docs (snd (run_saves empty_world home ''page'' two_saves)) home =
     Some \<lparr>content = Some (JObj content_v2),
           meta = Some \<lparr>version = 2, status = DRAFT, createdAt = 1000, createdBy = ''U1'',
                        updatedAt = 2000, updatedBy = ''U2'', publishedAt = None,
                        publishedBy = None\<rparr>\<rparr>"
  by (simp add: save_eval)

lemma one_save_doc:
  "docs (snd (run_saves empty_world home ''page'' [hd two_saves])) home =
     Some \<lparr>content = Some (JObj content_v1),
           meta = Some \<lparr>version = 1, status = DRAFT, createdAt = 1000, createdBy = ''U1'',
                        updatedAt = 1000, updatedBy = ''U1'', publishedAt = None,
                        publishedBy = None\<rparr>\<rparr>
   \<and> versions (snd (run_saves empty_world home ''page'' [hd two_saves])) home = []"
  by (simp add: save_eval)

lemma stale_third_save:
  "fst (VersionManager_saveContent later_env
          (snd (run_saves empty_world home ''page'' two_saves))
          home ''page'' content_v1 (opts_by ''U1'' (Some 1))) =
     \<lparr>success = False, data = None,
      error = Some (''Version conflict: expected version 1, but current version is 2. '' @
                    ''Please refresh and try again.''),
      errorCode = None\<rparr>"
  by (simp add: save_eval)

text \<open>
  C1 (amended). A save that supplies an \<^verbatim>\<open>expectedVersion\<close> different from the current version
  (0 when there is no document, or none with \<^verbatim>\<open>_meta\<close>) leaves the whole store as it was
  and reports failure. When the transaction's read succeeds, the result carries no
  \<^verbatim>\<open>errorCode\<close>: the conflict is told by the message, which names the expected and the
  current version.
\<close>

theorem saveContent_stale_version:
  assumes "expectedVersion opts = Some ev" and "ev \<noteq> currentVersionOf (docs w docPath)"
  shows "snd (VersionManager_saveContent e w docPath ct c opts) = w
     \<and> \<not> success (fst (VersionManager_saveContent e w docPath ct c opts))
     \<and> (txGetError e = None \<longrightarrow>
          fst (VersionManager_saveContent e w docPath ct c opts) =
            \<lparr>success = False, data = None,
             error = Some (conflictMessage ev (currentVersionOf (docs w docPath))),
             errorCode = None\<rparr>)
     \<and> str_includes (conflictMessage ev (currentVersionOf (docs w docPath))) (numberToString ev)
     \<and> str_includes (conflictMessage ev (currentVersionOf (docs w docPath)))
           (numberToString (currentVersionOf (docs w docPath)))"
proof -
  have msg: "conflictMessage ev (currentVersionOf (docs w docPath)) \<noteq> []"
    by (simp add: conflictMessage_def)
  have tx: "saveTransaction e w docPath c opts =
      (case txGetError e of Some err \<Rightarrow> Inl err
       | None \<Rightarrow> Inl (Thrown (conflictMessage ev (currentVersionOf (docs w docPath))) None))"
    using assms by (simp add: saveTransaction_eq split: option.splits)
  show ?thesis
    using msg conflictMessage_names [of ev "currentVersionOf (docs w docPath)"]
    by (simp add: VersionManager_saveContent_def tx failed_def split: option.splits)
qed

theorem saveContent_stale_version_witness:
  "expectedVersion (opts_by ''U1'' (Some 1)) = Some 1
   \<and> 1 \<noteq> currentVersionOf (docs (snd (run_saves empty_world home ''page'' two_saves)) home)
   \<and> txGetError later_env = None
   \<and> snd (VersionManager_saveContent later_env
            (snd (run_saves empty_world home ''page'' two_saves))
            home ''page'' content_v1 (opts_by ''U1'' (Some 1))) =
       snd (run_saves empty_world home ''page'' two_saves)
   \<and> fst (VersionManager_saveContent later_env
            (snd (run_saves empty_world home ''page'' two_saves))
            home ''page'' content_v1 (opts_by ''U1'' (Some 1))) =
       \<lparr>success = False, data = None,
        error = Some (''Version conflict: expected version 1, but current version is 2. '' @
                      ''Please refresh and try again.''),
        errorCode = None\<rparr>"
proof -
  have h1: "expectedVersion (opts_by ''U1'' (Some 1)) = Some 1"
    by (simp add: opts_by_def)
  have cv: "currentVersionOf (docs (snd (run_saves empty_world home ''page'' two_saves)) home) = 2"
    by (simp add: two_saves_doc currentVersionOf_def)
  have h2: "1 \<noteq> currentVersionOf (docs (snd (run_saves empty_world home ''page'' two_saves)) home)"
    by (simp add: cv)
  have h3: "txGetError later_env = None"
    by (simp add: later_env_def quiet_env_def)
  have m: "conflictMessage 1 2 =
      ''Version conflict: expected version 1, but current version is 2. '' @
      ''Please refresh and try again.''"
    by (simp add: conflictMessage_def numberToString_def)
  show ?thesis
    using saveContent_stale_version [OF h1 h2, of later_env "''page''" content_v1] h1 h2 h3
    by (simp add: cv m)
qed

text \<open>
  C1, as stated, fails: in the example the third save expects version 1 while the
  document is at version 2, and the \<^verbatim>\<open>errorCode\<close> of the result is not \<^verbatim>\<open>VERSION_CONFLICT\<close>.
\<close>

theorem saveContent_stale_errorCode:
  "expectedVersion (opts_by ''U1'' (Some 1)) = Some 1
   \<and> currentVersionOf (docs (snd (run_saves empty_world home ''page'' two_saves)) home) = 2
   \<and> errorCode (fst (VersionManager_saveContent later_env
                        (snd (run_saves empty_world home ''page'' two_saves))
                        home ''page'' content_v1 (opts_by ''U1'' (Some 1))))
       \<noteq> Some ''VERSION_CONFLICT''"
proof -
  have "errorCode (fst (VersionManager_saveContent later_env
                        (snd (run_saves empty_world home ''page'' two_saves))
                        home ''page'' content_v1 (opts_by ''U1'' (Some 1)))) = None"
    by (simp add: stale_third_save)
  moreover have "expectedVersion (opts_by ''U1'' (Some 1)) = Some 1"
    by (simp add: opts_by_def)
  moreover have
    "currentVersionOf (docs (snd (run_saves empty_world home ''page'' two_saves)) home) = 2"
    by (simp add: two_saves_doc currentVersionOf_def)
  ultimately show ?thesis by simp
qed

text \<open>
  C2. A save that reports success returns the current version plus one and leaves the
  document at that version. Hence calls that all report success, starting where no
  document exists, return the versions 1, 2, 3, ... in order.
\<close>

theorem saves_number_versions:
  "(success (fst (VersionManager_saveContent e w p ct c opts)) \<longrightarrow>
      data (fst (VersionManager_saveContent e w p ct c opts)) =
        Some (currentVersionOf (docs w p) + 1)
      \<and> currentVersionOf (docs (snd (VersionManager_saveContent e w p ct c opts)) p) =
        currentVersionOf (docs w p) + 1)
   \<and> (docs w p = None \<and> list_all success (fst (run_saves w p ct calls)) \<longrightarrow>
        map data (fst (run_saves w p ct calls)) =
          map (\<lambda>k. Some (int k)) [1..<Suc (length calls)]
        \<and> currentVersionOf (docs (snd (run_saves w p ct calls)) p) = int (length calls))"
proof -
  have step: "success (fst (VersionManager_saveContent e w p ct c opts)) \<longrightarrow>
      data (fst (VersionManager_saveContent e w p ct c opts)) =
        Some (currentVersionOf (docs w p) + 1)
      \<and> currentVersionOf (docs (snd (VersionManager_saveContent e w p ct c opts)) p) =
        currentVersionOf (docs w p) + 1"
    using save_success_effect [of e w p ct c opts] by blast
  have run: "map data (fst (run_saves w p ct calls)) =
          map (\<lambda>k. Some (int k)) [1..<Suc (length calls)]
        \<and> currentVersionOf (docs (snd (run_saves w p ct calls)) p) = int (length calls)"
    if "docs w p = None" and "list_all success (fst (run_saves w p ct calls))"
    using run_saves_versions [OF that(2)] that(1) by (simp add: currentVersionOf_def)
  show ?thesis using step run by blast
qed

theorem saves_number_versions_witness:
  "docs empty_world home = None
   \<and> list_all success (fst (run_saves empty_world home ''page'' two_saves))
   \<and> map data (fst (run_saves empty_world home ''page'' two_saves)) = [Some 1, Some 2]
   \<and> currentVersionOf (docs (snd (run_saves empty_world home ''page'' two_saves)) home) = 2"
proof -
  have h1: "docs empty_world home = None" by (simp add: empty_world_def)
  have h2: "list_all success (fst (run_saves empty_world home ''page'' two_saves))"
    by (simp add: two_saves_results)
  have len: "length two_saves = 2" by (simp add: two_saves_def)
  have "map data (fst (run_saves empty_world home ''page'' two_saves)) =
          map (\<lambda>k. Some (int k)) [1..<Suc (length two_saves)]
        \<and> currentVersionOf (docs (snd (run_saves empty_world home ''page'' two_saves)) home) =
            int (length two_saves)"
    using saves_number_versions [of quiet_env empty_world home "''page''" content_v1
        "opts_by ''U1'' None" two_saves] h1 h2
    by blast
  then show ?thesis using h1 h2 by (simp add: len upt_conv_Cons)
qed

text \<open>
  C3. After calls that all report success on a path without document and without
  snapshots, the document is at version N, the number of calls, and the snapshots of the
  path are, in order, those of versions 1 to N - 1, each holding the content that the
  save of that version wrote: one snapshot for each earlier version, none for version N.
\<close>

theorem snapshots_after_saves:
  assumes "docs w p = None" and "versions w p = []"
    and "list_all success (fst (run_saves w p ct calls))"
  shows "snapshot_index (snd (run_saves w p ct calls)) p =
           zip (map int [1..<length calls])
               (map (\<lambda>call. Some (JObj (fst (snd call)))) (butlast calls))
     \<and> map fst (snapshot_index (snd (run_saves w p ct calls)) p) = map int [1..<length calls]
     \<and> currentVersionOf (docs (snd (run_saves w p ct calls)) p) = int (length calls)"
proof -
  have idx: "snapshot_index (snd (run_saves w p ct calls)) p =
           zip (map int [1..<length calls])
               (map (\<lambda>call. Some (JObj (fst (snd call)))) (butlast calls))"
  proof (cases calls)
    case Nil
    then show ?thesis using assms(2) by (simp add: snapshot_index_def)
  next
    case (Cons call rest)
    obtain e c opts where call: "call = (e, c, opts)" by (cases call)
    obtain r w1 where step: "VersionManager_saveContent e w p ct c opts = (r, w1)"
      by (cases "VersionManager_saveContent e w p ct c opts")
    have ok: "success r" and oks: "list_all success (fst (run_saves w1 p ct rest))"
      using assms(3) Cons call step by (simp_all split: prod.splits)
    have pc: "prior_content w p = None" using assms(1) by (simp add: prior_content_def)
    have cv0: "currentVersionOf (docs w p) = 0" using assms(1) by (simp add: currentVersionOf_def)
    have eff: "\<exists>d1. docs w1 p = Some d1 \<and> content d1 = Some (JObj c)"
      "currentVersionOf (docs w1 p) = 1" "snapshot_index w1 p = []"
      using save_success_effect [of e w p ct c opts] ok step pc cv0 assms(2)
      by (simp_all add: snapshot_index_def truthy_opt_def)
    from eff(1) obtain d1 where d1: "docs w1 p = Some d1" "content d1 = Some (JObj c)" by blast
    have "snapshot_index (snd (run_saves w1 p ct rest)) p =
        zip (map (\<lambda>k. 1 + int k) [0..<length rest])
            (map (\<lambda>c. Some (JObj c)) (butlast (c # map (\<lambda>call. fst (snd call)) rest)))"
      using run_saves_snapshots [OF d1 oks] eff(2,3) by simp
    moreover have "map (\<lambda>k. 1 + int k) [0..<length rest] = map int [1..<Suc (length rest)]"
      by (simp add: map_Suc_upt [symmetric] comp_def del: upt_Suc)
    moreover have "map (\<lambda>c. Some (JObj c)) (butlast (c # map (\<lambda>call. fst (snd call)) rest))
        = map (\<lambda>call. Some (JObj (fst (snd call)))) (butlast (call # rest))"
    proof -
      have "c # map (\<lambda>call. fst (snd call)) rest = map (\<lambda>call. fst (snd call)) (call # rest)"
        using call by simp
      then have "butlast (c # map (\<lambda>call. fst (snd call)) rest) =
          map (\<lambda>call. fst (snd call)) (butlast (call # rest))"
        by (simp only: map_butlast)
      then show ?thesis by (simp only: map_map comp_def)
    qed
    moreover have "snd (run_saves w p ct calls) = snd (run_saves w1 p ct rest)"
      using Cons call step by (simp split: prod.splits)
    moreover have "length calls = Suc (length rest)" using Cons by simp
    ultimately show ?thesis using Cons by (simp only:)
  qed
  have len: "length (map int [1..<length calls]) =
      length (map (\<lambda>call. Some (JObj (fst (snd call)))) (butlast calls))"
    by simp
  have vs: "map fst (snapshot_index (snd (run_saves w p ct calls)) p) = map int [1..<length calls]"
    unfolding idx using len by (simp del: length_map)
  have cv: "currentVersionOf (docs (snd (run_saves w p ct calls)) p) = int (length calls)"
    using run_saves_versions [OF assms(3)] assms(1) by (simp add: currentVersionOf_def)
  show ?thesis using idx vs cv by simp
qed

theorem snapshots_after_saves_witness:
  "docs empty_world home = None
   \<and> versions empty_world home = []
   \<and> list_all success (fst (run_saves empty_world home ''page'' two_saves))
   \<and> snapshot_index (snd (run_saves empty_world home ''page'' two_saves)) home =
       [(1, Some (JObj content_v1))]
   \<and> snapshot_index (snd (run_saves empty_world home ''page'' [hd two_saves])) home = []"
proof -
  have h1: "docs empty_world home = None" and h2: "versions empty_world home = []"
    by (simp_all add: empty_world_def)
  have h3: "list_all success (fst (run_saves empty_world home ''page'' two_saves))"
    by (simp add: two_saves_results)
  have h4: "list_all success (fst (run_saves empty_world home ''page'' [hd two_saves]))"
    by (simp add: save_eval)
  have a: "snapshot_index (snd (run_saves empty_world home ''page'' two_saves)) home =
       [(1, Some (JObj content_v1))]"
    using snapshots_after_saves [OF h1 h2 h3] by (simp add: two_saves_def upt_conv_Cons)
  have b: "snapshot_index (snd (run_saves empty_world home ''page'' [hd two_saves])) home = []"
    using snapshots_after_saves [OF h1 h2 h4] by simp
  show ?thesis using h1 h2 h3 a b by simp
qed

text \<open>
  C4 (amended). A save that reports success over an existing document with content adds
  one snapshot: of the superseded version and its content, attributed to the actor of
  this save (identifier, e-mail address and change description), and dated when the
  snapshot is written.
\<close>

theorem snapshot_attribution:
  assumes "success (fst (VersionManager_saveContent e w p ct c opts))"
    and "docs w p = Some d" and "truthy_opt (content d)"
  shows "versions (snd (VersionManager_saveContent e w p ct c opts)) p =
           versions w p @
           [(snapshotDocId e,
             \<lparr>versionId = snapshotUuid e, cv_version = currentVersionOf (docs w p),
              contentSnapshot = content d, cv_createdAt = snapshotNow e,
              cv_createdBy = opt_userId opts, createdByEmail = Some (opt_userEmail opts),
              changeDescription = opt_changeDescription opts, isRollback = False,
              rolledBackFrom = None\<rparr>)]"
proof -
  have pc: "prior_content w p = content d" using assms(2) by (simp add: prior_content_def)
  show ?thesis
    using save_success_effect [OF assms(1)] assms(3) by (simp add: pc)
qed

theorem snapshot_attribution_witness:
  "success (fst (VersionManager_saveContent later_env
              (snd (run_saves empty_world home ''page'' [hd two_saves]))
              home ''page'' content_v2 (opts_by ''U2'' (Some 1))))
   \<and> truthy_opt (Some (JObj content_v1))
   \<and> versions (snd (VersionManager_saveContent later_env
                      (snd (run_saves empty_world home ''page'' [hd two_saves]))
                      home ''page'' content_v2 (opts_by ''U2'' (Some 1)))) home =
       [(''doc-s2'',
         \<lparr>versionId = ''uuid-s2'', cv_version = 1, contentSnapshot = Some (JObj content_v1),
          cv_createdAt = 2001, cv_createdBy = ''U2'',
          createdByEmail = Some ''U2@chariotek.com'',
          changeDescription = None, isRollback = False, rolledBackFrom = None\<rparr>)]"
proof -
  let ?w1 = "snd (run_saves empty_world home ''page'' [hd two_saves])"
  let ?d = "\<lparr>content = Some (JObj content_v1),
           meta = Some \<lparr>version = 1, status = DRAFT, createdAt = 1000, createdBy = ''U1'',
                        updatedAt = 1000, updatedBy = ''U1'', publishedAt = None,
                        publishedBy = None\<rparr>\<rparr>"
  have h1: "success (fst (VersionManager_saveContent later_env ?w1
              home ''page'' content_v2 (opts_by ''U2'' (Some 1))))"
    by (simp add: save_eval)
  have h2: "docs ?w1 home = Some ?d" using one_save_doc by simp
  have h3: "truthy_opt (content ?d)" by (simp add: truthy_opt_def)
  have v: "versions ?w1 home = []" using one_save_doc by simp
  have cv: "currentVersionOf (docs ?w1 home) = 1" by (simp add: h2 currentVersionOf_def)
  have e: "snapshotDocId later_env = ''doc-s2''" "snapshotUuid later_env = ''uuid-s2''"
    "snapshotNow later_env = 2001"
    by (simp_all add: later_env_def)
  have o: "opt_userId (opts_by ''U2'' (Some 1)) = ''U2''"
    "opt_userEmail (opts_by ''U2'' (Some 1)) = ''U2@chariotek.com''"
    "opt_changeDescription (opts_by ''U2'' (Some 1)) = None"
    by (simp_all add: opts_by_def)
  show ?thesis
    using snapshot_attribution [OF h1 h2 h3] h1 h3
    by (simp add: v cv e o)
qed

text \<open>
  C4, as stated, fails: U1 wrote version 1 at time 1000, U2 superseded it, and the
  snapshot of version 1 names U2 as its creator at time 2001.
\<close>

theorem snapshot_attributed_to_superseding_actor:
  "snapshot_authors (snd (run_saves empty_world home ''page'' two_saves)) home =
     [(1, ''U2'', 2001)]
   \<and> document_author (snd (run_saves empty_world home ''page'' [hd two_saves])) home =
     Some (1, ''U1'', 1000)"
  using one_save_doc by (simp add: two_saves_versions snapshot_authors_def document_author_def)

section \<open>Properties of the rollback\<close>

text \<open>\<^verbatim>\<open>log\<close> always returns, and touches nothing but the audit log, to which it adds at
  most one row.\<close>

lemma log_total:
  "\<exists>i w'. log e w input = Inr (i, w') \<and> docs w' = docs w \<and> versions w' = versions w
      \<and> patterns w' = patterns w
      \<and> (audit_logs w' = audit_logs w \<or> (\<exists>row. audit_logs w' = audit_logs w @ [row]))"
  by (cases "auditAddError e") (simp_all add: log_def addAuditDoc_def Let_def)

lemma rollbackTransaction_eq:
  "rollbackTransaction e w p target opts =
     (case txGetError e of
        Some err \<Rightarrow> Inl err
      | None \<Rightarrow>
          (case docs w p of
             None \<Rightarrow> Inl (Thrown ''Document does not exist'' None)
           | Some d \<Rightarrow>
               (case meta d of
                  None \<Rightarrow>
                    Inl (Thrown (''Cannot read properties of undefined (reading '' @
                                 [CHR 0x27] @ ''version'' @ [CHR 0x27] @ '')'') None)
                | Some m \<Rightarrow>
                    (case txCommitError e of
                       Some err \<Rightarrow> Inl err
                     | None \<Rightarrow>
                         Inr (\<lparr>newVersion = version m + 1, previousContent = content d,
                               previousVersion = version m\<rparr>,
                              w\<lparr>docs := (docs w)(p \<mapsto>
                                   \<lparr>content = contentSnapshot target,
                                    meta = Some (m\<lparr>version := version m + 1,
                                                   updatedAt := txNow e,
                                                   updatedBy := rb_userId opts\<rparr>)\<rparr>)\<rparr>)))))"
  unfolding rollbackTransaction_def Let_def by (rule refl)

lemma getVersion_Some:
  assumes "getVersion e w p v = Inr (Some target)"
  shows "\<exists>row. row \<in> set (versions w p) \<and> cv_version (snd row) = v
            \<and> target = (snd row)\<lparr>versionId := fst row\<rparr>"
proof -
  have q: "queryError e = None" using assms by (simp add: getVersion_def split: option.splits)
  obtain row rows where f: "filter (\<lambda>row. cv_version (snd row) = v) (versions w p) = row # rows"
    and t: "target = (snd row)\<lparr>versionId := fst row\<rparr>"
    using assms q by (auto simp: getVersion_def split: list.splits)
  have "row \<in> set (filter (\<lambda>row. cv_version (snd row) = v) (versions w p))"
    unfolding f by simp
  then have "row \<in> set (versions w p) \<and> cv_version (snd row) = v" by simp
  then show ?thesis using t by blast
qed

text \<open>A rollback succeeds when the store does not fail, the target snapshot exists and the
  document exists with its \<^verbatim>\<open>_meta\<close>.\<close>

lemma rollback_succeeds:
  assumes "getVersion e w p (targetVersion opts) = Inr (Some target)"
    and "txGetError e = None" and "txCommitError e = None" and "snapshotAddError e = None"
    and "docs w p = Some d" and "meta d = Some m"
  shows "success (fst (rollbackToVersion e w p ct opts urole))"
proof -
  obtain res w1 where tx: "rollbackTransaction e w p target opts = Inr (res, w1)"
    unfolding rollbackTransaction_eq using assms by simp
  obtain i w2 where cs: "createVersionSnapshot e w1 p (previousContent res) (previousVersion res)
              (rb_userId opts) (rb_userEmail opts)
              (Some (''Rollback to version '' @ numberToString (targetVersion opts)))
              True (Some (targetVersion opts)) = Inr (i, w2)"
    using assms(4) by (simp add: createVersionSnapshot_def Let_def)
  obtain j w3 where lg: "logContentRollback e w2 (rb_userId opts) (rb_userEmail opts) urole
        ct p p (previousContent res) (contentSnapshot target) (previousVersion res)
        (targetVersion opts) True None = Inr (j, w3)"
    unfolding logContentRollback_def using log_total by metis
  show ?thesis using assms(1) tx cs lg by (simp add: rollbackToVersion_def)
qed

text \<open>
  C5. A rollback to version v that reports success, on a document at version c, leaves the
  document at version c + 1 with the content of the snapshot of v that the query
  returned, returns \<^verbatim>\<open>{version: c + 1, restoredVersion: v}\<close>, adds one snapshot of version c
  with the content before the rollback, flagged \<^verbatim>\<open>isRollback\<close> and \<^verbatim>\<open>rolledBackFrom = v\<close>,
  and changes no field of \<^verbatim>\<open>_meta\<close> other than \<^verbatim>\<open>version\<close>, \<^verbatim>\<open>updatedAt\<close> and \<^verbatim>\<open>updatedBy\<close>.
\<close>

theorem rollback_restores:
  assumes "success (fst (rollbackToVersion e w p ct opts urole))"
  shows "\<exists>target d m.
      getVersion e w p (targetVersion opts) = Inr (Some target)
      \<and> (\<exists>row. row \<in> set (versions w p) \<and> cv_version (snd row) = targetVersion opts
               \<and> contentSnapshot (snd row) = contentSnapshot target)
      \<and> docs w p = Some d \<and> meta d = Some m
      \<and> docs (snd (rollbackToVersion e w p ct opts urole)) p =
          Some \<lparr>content = contentSnapshot target,
                meta = Some \<lparr>version = version m + 1, status = status m,
                             createdAt = createdAt m, createdBy = createdBy m,
                             updatedAt = txNow e, updatedBy = rb_userId opts,
                             publishedAt = publishedAt m, publishedBy = publishedBy m\<rparr>\<rparr>
      \<and> data (fst (rollbackToVersion e w p ct opts urole)) =
          Some \<lparr>rb_version = version m + 1, restoredVersion = targetVersion opts\<rparr>
      \<and> versions (snd (rollbackToVersion e w p ct opts urole)) p =
          versions w p @
          [(snapshotDocId e,
            \<lparr>versionId = snapshotUuid e, cv_version = version m,
             contentSnapshot = content d, cv_createdAt = snapshotNow e,
             cv_createdBy = rb_userId opts, createdByEmail = Some (rb_userEmail opts),
             changeDescription =
               Some (''Rollback to version '' @ numberToString (targetVersion opts)),
             isRollback = True, rolledBackFrom = Some (targetVersion opts)\<rparr>)]"
proof -
  let ?r = "rollbackToVersion e w p ct opts urole"
  obtain target where gv: "getVersion e w p (targetVersion opts) = Inr (Some target)"
    using assms
    by (cases "getVersion e w p (targetVersion opts)")
       (auto simp: rollbackToVersion_def failed_def split: option.splits)
  obtain res w1 where tx: "rollbackTransaction e w p target opts = Inr (res, w1)"
    using assms gv
    by (cases "rollbackTransaction e w p target opts")
       (auto simp: rollbackToVersion_def failed_def)
  obtain d m where d: "docs w p = Some d" and m: "meta d = Some m"
    and res: "res = \<lparr>newVersion = version m + 1, previousContent = content d,
                     previousVersion = version m\<rparr>"
    and w1: "w1 = w\<lparr>docs := (docs w)(p \<mapsto>
               \<lparr>content = contentSnapshot target,
                meta = Some (m\<lparr>version := version m + 1, updatedAt := txNow e,
                               updatedBy := rb_userId opts\<rparr>)\<rparr>)\<rparr>"
    using tx unfolding rollbackTransaction_eq
    by (auto split: option.splits)
  have sn: "snapshotAddError e = None"
    using assms gv tx
    by (cases "snapshotAddError e")
       (auto simp: rollbackToVersion_def createVersionSnapshot_def Let_def failed_def)
  let ?snap = "(snapshotDocId e,
            \<lparr>versionId = snapshotUuid e, cv_version = version m,
             contentSnapshot = content d, cv_createdAt = snapshotNow e,
             cv_createdBy = rb_userId opts, createdByEmail = Some (rb_userEmail opts),
             changeDescription =
               Some (''Rollback to version '' @ numberToString (targetVersion opts)),
             isRollback = True, rolledBackFrom = Some (targetVersion opts)\<rparr>)"
  let ?w2 = "w1\<lparr>versions := (versions w1)(p := versions w1 p @ [?snap])\<rparr>"
  have cs: "createVersionSnapshot e w1 p (previousContent res) (previousVersion res)
              (rb_userId opts) (rb_userEmail opts)
              (Some (''Rollback to version '' @ numberToString (targetVersion opts)))
              True (Some (targetVersion opts)) = Inr (snapshotDocId e, ?w2)"
    using sn res by (simp add: createVersionSnapshot_def Let_def)
  obtain i w3 where lg: "logContentRollback e ?w2 (rb_userId opts) (rb_userEmail opts) urole
        ct p p (previousContent res) (contentSnapshot target) (previousVersion res)
        (targetVersion opts) True None = Inr (i, w3)"
    and keep: "docs w3 = docs ?w2" "versions w3 = versions ?w2"
    unfolding logContentRollback_def using log_total by metis
  have r: "?r = (\<lparr>success = True,
                   data = Some \<lparr>rb_version = newVersion res,
                                restoredVersion = targetVersion opts\<rparr>,
                   error = None, errorCode = None\<rparr>, w3)"
    using gv tx cs lg by (simp add: rollbackToVersion_def)
  have row: "\<exists>row. row \<in> set (versions w p) \<and> cv_version (snd row) = targetVersion opts
               \<and> contentSnapshot (snd row) = contentSnapshot target"
  proof -
    obtain row where row: "row \<in> set (versions w p)" "cv_version (snd row) = targetVersion opts"
      "target = (snd row)\<lparr>versionId := fst row\<rparr>"
      using getVersion_Some [OF gv] by blast
    have "contentSnapshot (snd row) = contentSnapshot target" using row(3) by simp
    then show ?thesis using row(1,2) by blast
  qed
  have meta_eq: "m\<lparr>version := version m + 1, updatedAt := txNow e, updatedBy := rb_userId opts\<rparr>
      = \<lparr>version = version m + 1, status = status m, createdAt = createdAt m,
         createdBy = createdBy m, updatedAt = txNow e, updatedBy = rb_userId opts,
         publishedAt = publishedAt m, publishedBy = publishedBy m\<rparr>"
    by (cases m) simp
  have docs3: "docs w3 p = Some \<lparr>content = contentSnapshot target,
                meta = Some \<lparr>version = version m + 1, status = status m,
                             createdAt = createdAt m, createdBy = createdBy m,
                             updatedAt = txNow e, updatedBy = rb_userId opts,
                             publishedAt = publishedAt m, publishedBy = publishedBy m\<rparr>\<rparr>"
    using keep(1) w1 meta_eq by simp
  have vers3: "versions w3 p = versions w p @ [?snap]"
    using keep(2) w1 by simp
  show ?thesis
    using gv row d m docs3 vers3 r res by simp
qed

theorem rollback_restores_witness:
  "success (fst (rollbackToVersion rollback_env
                   (snd (run_saves empty_world home ''page'' two_saves))
                   home ''page'' rollback_opts ''admin''))
   \<and> docs (snd (rollbackToVersion rollback_env
                   (snd (run_saves empty_world home ''page'' two_saves))
                   home ''page'' rollback_opts ''admin'')) home =
       Some \<lparr>content = Some (JObj content_v1),
             meta = Some \<lparr>version = 3, status = DRAFT, createdAt = 1000, createdBy = ''U1'',
                          updatedAt = 3000, updatedBy = ''U3'', publishedAt = None,
                          publishedBy = None\<rparr>\<rparr>
   \<and> data (fst (rollbackToVersion rollback_env
                   (snd (run_saves empty_world home ''page'' two_saves))
                   home ''page'' rollback_opts ''admin'')) =
       Some \<lparr>rb_version = 3, restoredVersion = 1\<rparr>
   \<and> map (\<lambda>row. (cv_version (snd row), contentSnapshot (snd row), isRollback (snd row),
                  rolledBackFrom (snd row)))
         (versions (snd (rollbackToVersion rollback_env
                           (snd (run_saves empty_world home ''page'' two_saves))
                           home ''page'' rollback_opts ''admin'')) home) =
       [(1, Some (JObj content_v1), False, None),
        (2, Some (JObj content_v2), True, Some 1)]"
proof -
  let ?w = "snd (run_saves empty_world home ''page'' two_saves)"
  let ?r = "rollbackToVersion rollback_env ?w home ''page'' rollback_opts ''admin''"
  let ?target = "\<lparr>versionId = ''doc-s2'', cv_version = 1, contentSnapshot = Some (JObj content_v1),
        cv_createdAt = 2001, cv_createdBy = ''U2'', createdByEmail = Some ''U2@chariotek.com'',
        changeDescription = None, isRollback = False, rolledBackFrom = None\<rparr>"
  let ?d = "\<lparr>content = Some (JObj content_v2),
           meta = Some \<lparr>version = 2, status = DRAFT, createdAt = 1000, createdBy = ''U1'',
                        updatedAt = 2000, updatedBy = ''U2'', publishedAt = None,
                        publishedBy = None\<rparr>\<rparr>"
  have env: "queryError rollback_env = None" "txGetError rollback_env = None"
    "txCommitError rollback_env = None" "snapshotAddError rollback_env = None"
    "txNow rollback_env = 3000"
    by (simp_all add: rollback_env_def quiet_env_def)
  have tv: "targetVersion rollback_opts = 1" "rb_userId rollback_opts = ''U3''"
    by (simp_all add: rollback_opts_def)
  have gv: "getVersion rollback_env ?w home (targetVersion rollback_opts) = Inr (Some ?target)"
    by (simp add: getVersion_def env tv two_saves_versions)
  have d: "docs ?w home = Some ?d" by (rule two_saves_doc)
  have ok: "success (fst ?r)"
    using rollback_succeeds [OF gv env(2,3,4) d] by simp
  obtain target' d' m' where
    t: "getVersion rollback_env ?w home (targetVersion rollback_opts) = Inr (Some target')"
    and d': "docs ?w home = Some d'" "meta d' = Some m'"
    and doc: "docs (snd ?r) home =
          Some \<lparr>content = contentSnapshot target',
                meta = Some \<lparr>version = version m' + 1, status = status m',
                             createdAt = createdAt m', createdBy = createdBy m',
                             updatedAt = txNow rollback_env, updatedBy = rb_userId rollback_opts,
                             publishedAt = publishedAt m', publishedBy = publishedBy m'\<rparr>\<rparr>"
    and dat: "data (fst ?r) =
          Some \<lparr>rb_version = version m' + 1, restoredVersion = targetVersion rollback_opts\<rparr>"
    and vs: "versions (snd ?r) home =
          versions ?w home @
          [(snapshotDocId rollback_env,
            \<lparr>versionId = snapshotUuid rollback_env, cv_version = version m',
             contentSnapshot = content d', cv_createdAt = snapshotNow rollback_env,
             cv_createdBy = rb_userId rollback_opts,
             createdByEmail = Some (rb_userEmail rollback_opts),
             changeDescription =
               Some (''Rollback to version '' @ numberToString (targetVersion rollback_opts)),
             isRollback = True, rolledBackFrom = Some (targetVersion rollback_opts)\<rparr>)]"
    using rollback_restores [OF ok] by blast
  have t': "target' = ?target" using t gv by simp
  have dd: "d' = ?d" using d d'(1) by simp
  have mm: "m' = \<lparr>version = 2, status = DRAFT, createdAt = 1000, createdBy = ''U1'',
                        updatedAt = 2000, updatedBy = ''U2'', publishedAt = None,
                        publishedBy = None\<rparr>"
    using d'(2) dd by simp
  show ?thesis
    using ok doc dat vs by (simp add: t' dd mm env tv two_saves_versions)
qed

section \<open>Properties of the Content Service\<close>

lemma log_eq:
  "log e w input =
     Inr (case auditAddError e of
            Some err \<Rightarrow> ([], w)
          | None \<Rightarrow>
              (auditDocId e,
               w\<lparr>audit_logs := audit_logs w @
                  [(auditDocId e,
                    \<lparr>action = action input, userId = userId input, userEmail = userEmail input,
                     userRole = userRole input, resourceType = resourceType input,
                     resourceId = resourceId input, resourcePath = resourcePath input,
                     previousValue = truncateValue (previousValue input),
                     newValue = truncateValue (newValue input),
                     log_success = log_success input, errorMessage = errorMessage input,
                     metadata = metadata input,
                     log_id = auditUuid e, timestamp = auditNow e,
                     userAgent = navigatorUserAgent e\<rparr>)]\<rparr>))"
  by (cases "auditAddError e") (simp_all add: log_def addAuditDoc_def Let_def)

lemma vm_save_ignores_audit_env:
  "VersionManager_saveContent (e\<lparr>auditAddError := a\<rparr>) w p ct c so =
   VersionManager_saveContent e w p ct c so"
proof -
  have t: "saveTransaction (e\<lparr>auditAddError := a\<rparr>) w p c so = saveTransaction e w p c so"
    by (auto simp: saveTransaction_eq split: option.splits)
  have s: "createVersionSnapshot (e\<lparr>auditAddError := a\<rparr>) w1 p x v u m d r f =
      createVersionSnapshot e w1 p x v u m d r f" for w1 x v u m d r f
    by (simp add: createVersionSnapshot_def Let_def split: option.splits)
  show ?thesis unfolding VersionManager_saveContent_def t s by (rule refl)
qed

lemma vm_save_keeps_audit:
  "audit_logs (snd (VersionManager_saveContent e w p ct c so)) = audit_logs w"
proof (cases "saveTransaction e w p c so")
  case (Inl err)
  then show ?thesis by (simp add: VersionManager_saveContent_def)
next
  case (Inr pr)
  obtain res w1 where pr: "pr = (res, w1)" by (cases pr)
  have w1: "audit_logs w1 = audit_logs w"
    using saveTransaction_Inr [OF Inr [unfolded pr]] by simp
  show ?thesis
    using Inr pr w1
    by (cases "snapshotAddError e")
       (simp_all add: VersionManager_saveContent_def createVersionSnapshot_def Let_def)
qed

lemma vm_save_success_data:
  "success (fst (VersionManager_saveContent e w p ct c so)) \<Longrightarrow>
   data (fst (VersionManager_saveContent e w p ct c so)) \<noteq> None"
  using save_success_effect [of e w p ct c so] by simp

lemma checks_ignore_audit_env:
  "saveContent_checks schemas (e\<lparr>auditAddError := a\<rparr>) w p ct c opts =
   saveContent_checks schemas e w p ct c opts"
proof -
  have g: "getCurrentContent (e\<lparr>auditAddError := a\<rparr>) w p = getCurrentContent e w p"
    by (simp add: getCurrentContent_def)
  show ?thesis unfolding saveContent_checks_def g by (rule refl)
qed

lemma checks_early:
  assumes "saveContent_checks schemas e w p ct c opts = Inr (Inl (r, w1))"
  shows "\<not> success r \<and> audit_logs w1 = audit_logs w \<and> docs w1 = docs w
     \<and> versions w1 = versions w
     \<and> (errorCode r = Some ''VALIDATION_ERROR'' \<or> errorCode r = Some ''DANGEROUS_CONTENT'')"
  using assms
  by (auto simp: saveContent_checks_def Let_def
           split: sum.splits option.splits prod.splits if_splits)

lemma checks_pass:
  assumes "saveContent_checks schemas e w p ct c opts = Inr (Inr (sc, prev, w1))"
  shows "audit_logs w1 = audit_logs w \<and> docs w1 = docs w \<and> versions w1 = versions w"
  using assms
  by (auto simp: saveContent_checks_def Let_def
           split: sum.splits option.splits prod.splits if_splits)

text \<open>The \<^verbatim>\<open>try\<close> block never reaches its \<^verbatim>\<open>catch\<close>: it returns what the Version Manager
  returned, and adds an audit row exactly when that is a success and the append works.\<close>

lemma try_eq:
  "saveContent_try e w p ct sc prev opts =
     Inr (fst (VersionManager_saveContent e w p ct sc (toSaveContentOptions opts)),
          if success (fst (VersionManager_saveContent e w p ct sc (toSaveContentOptions opts)))
             \<and> auditAddError e = None
          then (snd (VersionManager_saveContent e w p ct sc (toSaveContentOptions opts)))
                 \<lparr>audit_logs :=
                    audit_logs (snd (VersionManager_saveContent e w p ct sc
                                       (toSaveContentOptions opts))) @
                    [(auditDocId e,
                      \<lparr>action = A_CONTENT_UPDATE, userId = user_id (user opts),
                       userEmail = email (user opts), userRole = role (user opts),
                       resourceType = Some ct, resourceId = Some p, resourcePath = Some p,
                       previousValue = truncateValue (Some (or_empty prev)),
                       newValue = truncateValue (Some (JObj sc)),
                       log_success = True, errorMessage = None, metadata = None,
                       log_id = auditUuid e, timestamp = auditNow e,
                       userAgent = navigatorUserAgent e\<rparr>)]\<rparr>
          else snd (VersionManager_saveContent e w p ct sc (toSaveContentOptions opts)))"
proof -
  obtain r w1 where vm: "VersionManager_saveContent e w p ct sc (toSaveContentOptions opts) = (r, w1)"
    by (cases "VersionManager_saveContent e w p ct sc (toSaveContentOptions opts)")
  have dat: "success r \<Longrightarrow> data r \<noteq> None"
    using vm_save_success_data [of e w p ct sc "toSaveContentOptions opts"] vm by simp
  show ?thesis
  proof (cases "success r")
    case False
    then show ?thesis using vm by (simp add: saveContent_try_def)
  next
    case True
    then show ?thesis using vm dat
      by (cases "auditAddError e")
         (simp_all add: saveContent_try_def logContentUpdate_def log_eq)
  qed
qed

lemma service_eq:
  "ContentService_saveContent schemas e w p ct c opts =
     (case saveContent_checks schemas e w p ct c opts of
        Inl err \<Rightarrow> Inl err
      | Inr (Inl early) \<Rightarrow> Inr early
      | Inr (Inr (sc, prev, w')) \<Rightarrow> saveContent_try e w' p ct sc prev opts)"
  by (simp add: ContentService_saveContent_def)

text \<open>The example inputs evaluated.\<close>

lemma sanitize_v1: "sanitizeObject initial_patterns content_v1 = (content_v1, initial_patterns)"
  by code_simp

lemma dangerous_v1:
  "containsDangerousContent initial_patterns (stringify (JObj content_v1)) = (False, initial_patterns)"
  by code_simp

lemma sanitize_key: "sanitizeObject st dangerous_key_content = (dangerous_key_content, st)"
  by (simp add: sanitizeObject_def dangerous_key_content_def)

lemma dangerous_key_first:
  "containsDangerousContent initial_patterns (stringify (JObj dangerous_key_content)) = (True, seen_patterns)"
  by code_simp

lemma dangerous_key_second:
  "containsDangerousContent seen_patterns (stringify (JObj dangerous_key_content)) = (False, initial_patterns)"
  by code_simp

lemma perm_admin: "ensurePermission admin_U1 CONTENT_UPDATE = Inr ()"
  by (simp add: ensurePermission_def checkPermission_def hasPermission_def RolePermissions_def admin_U1_def)

lemma empty_world_patterns: "empty_world\<lparr>patterns := initial_patterns\<rparr> = empty_world"
  by (simp add: empty_world_def)

lemma checks_v1:
  "getDocError e = None \<Longrightarrow>
   saveContent_checks no_schemas e empty_world home ''page'' content_v1 service_opts =
     Inr (Inr (content_v1, None, empty_world))"
proof -
  assume g: "getDocError e = None"
  have u: "user service_opts = admin_U1" "\<not> so_publish service_opts" "skipValidation service_opts"
    "\<not> skipSanitization service_opts"
    by (simp_all add: service_opts_def)
  have gc: "getCurrentContent e empty_world home = Inr None"
    using g by (simp add: getCurrentContent_def empty_world_def)
  have p: "patterns empty_world = initial_patterns" by (simp add: empty_world_def)
  show ?thesis
    by (simp add: saveContent_checks_def u perm_admin gc p sanitizeContentForType_def
          sanitize_v1 dangerous_v1 empty_world_patterns del: stringify.simps)
qed

lemma checks_key:
  "saveContent_checks no_schemas quiet_env empty_world home ''page'' dangerous_key_content service_opts =
     Inr (Inl (\<lparr>success = False, data = None,
               error = Some ''Content contains potentially dangerous patterns'',
               errorCode = Some ''DANGEROUS_CONTENT''\<rparr>,
              empty_world\<lparr>patterns := seen_patterns\<rparr>))"
proof -
  have u: "user service_opts = admin_U1" "\<not> so_publish service_opts" "skipValidation service_opts"
    "\<not> skipSanitization service_opts"
    by (simp_all add: service_opts_def)
  have gc: "getCurrentContent quiet_env empty_world home = Inr None"
    by (simp add: getCurrentContent_def empty_world_def quiet_env_def)
  have p: "patterns empty_world = initial_patterns" by (simp add: empty_world_def)
  show ?thesis
    by (simp add: saveContent_checks_def u perm_admin gc p sanitizeContentForType_def
          sanitize_key dangerous_key_first del: stringify.simps)
qed

lemma checks_key_again:
  "saveContent_checks no_schemas quiet_env (empty_world\<lparr>patterns := seen_patterns\<rparr>) home ''page''
       dangerous_key_content service_opts =
     Inr (Inr (dangerous_key_content, None, empty_world))"
proof -
  have u: "user service_opts = admin_U1" "\<not> so_publish service_opts" "skipValidation service_opts"
    "\<not> skipSanitization service_opts"
    by (simp_all add: service_opts_def)
  have gc: "getCurrentContent quiet_env (empty_world\<lparr>patterns := seen_patterns\<rparr>) home = Inr None"
    by (simp add: getCurrentContent_def empty_world_def quiet_env_def)
  show ?thesis
    by (simp add: saveContent_checks_def u perm_admin gc sanitizeContentForType_def
          sanitize_key dangerous_key_second empty_world_patterns del: stringify.simps)
qed

lemma vm_first_save:
  "VersionManager_saveContent (quiet_env\<lparr>auditAddError := a\<rparr>) empty_world home ''page'' c
       (toSaveContentOptions service_opts) =
     (\<lparr>success = True, data = Some 1, error = None, errorCode = None\<rparr>,
      empty_world\<lparr>docs := (docs empty_world)(home \<mapsto>
         \<lparr>content = Some (JObj c),
          meta = Some \<lparr>version = 1, status = DRAFT, createdAt = 1000, createdBy = ''U1'',
                       updatedAt = 1000, updatedBy = ''U1'', publishedAt = None,
                       publishedBy = None\<rparr>\<rparr>)\<rparr>)"
  by (simp add: VersionManager_saveContent_def saveTransaction_eq saveNewDoc_def
        currentVersionOf_def truthy_opt_def prior_content_def quiet_env_def empty_world_def
        toSaveContentOptions_def service_opts_def admin_U1_def)

text \<open>
  C6 (amended). An invocation of the Content Service's \<^verbatim>\<open>saveContent\<close> adds at most one
  audit entry. When it reports success and the append to the audit log works, it has
  added exactly one: a \<^verbatim>\<open>content_update\<close> entry of the acting user for the path, marked as a
  success. When validation or the second check for dangerous content rejects the
  content, or the permission guard throws, no audit entry is added.
\<close>

theorem saveContent_audit_entries:
  "(ContentService_saveContent schemas e w p ct c opts = Inr (r, w1) \<longrightarrow>
       audit_logs w1 = audit_logs w \<or> (\<exists>row. audit_logs w1 = audit_logs w @ [row]))
   \<and> (ContentService_saveContent schemas e w p ct c opts = Inr (r, w1) \<and> success r
        \<and> auditAddError e = None \<longrightarrow>
       (\<exists>row. audit_logs w1 = audit_logs w @ [(auditDocId e, row)]
              \<and> action row = A_CONTENT_UPDATE \<and> log_success row
              \<and> userId row = user_id (user opts) \<and> resourcePath row = Some p))
   \<and> (saveContent_checks schemas e w p ct c opts = Inr (Inl (r, w1)) \<longrightarrow>
       ContentService_saveContent schemas e w p ct c opts = Inr (r, w1) \<and> \<not> success r
       \<and> audit_logs w1 = audit_logs w
       \<and> errorCode r \<in> {Some ''VALIDATION_ERROR'', Some ''DANGEROUS_CONTENT''})
   \<and> (saveContent_checks schemas e w p ct c opts = Inl err \<longrightarrow>
       ContentService_saveContent schemas e w p ct c opts = Inl err)
   \<and> (checkPermission (user opts) CONTENT_UPDATE = Inr False \<longrightarrow>
       ContentService_saveContent schemas e w p ct c opts =
         Inl (Thrown ''Insufficient permissions: content:update required'' None))"
proof -
  have most: "audit_logs w1 = audit_logs w \<or> (\<exists>row. audit_logs w1 = audit_logs w @ [row])"
    and one: "success r \<and> auditAddError e = None \<longrightarrow>
       (\<exists>row. audit_logs w1 = audit_logs w @ [(auditDocId e, row)]
              \<and> action row = A_CONTENT_UPDATE \<and> log_success row
              \<and> userId row = user_id (user opts) \<and> resourcePath row = Some p)"
    if R: "ContentService_saveContent schemas e w p ct c opts = Inr (r, w1)"
  proof -
    show "audit_logs w1 = audit_logs w \<or> (\<exists>row. audit_logs w1 = audit_logs w @ [row])"
    proof (cases "saveContent_checks schemas e w p ct c opts")
      case (Inl err)
      then show ?thesis using R by (simp add: service_eq)
    next
      case (Inr x)
      show ?thesis
      proof (cases x)
        case (Inl early)
        then show ?thesis using R Inr checks_early [of schemas e w p ct c opts r w1]
          by (simp add: service_eq)
      next
        case (Inr go)
        obtain sc prev w' where go: "go = (sc, prev, w')" by (cases go)
        have ch: "saveContent_checks schemas e w p ct c opts = Inr (Inr (sc, prev, w'))"
          using \<open>saveContent_checks schemas e w p ct c opts = Inr x\<close> Inr go by simp
        have k: "audit_logs w' = audit_logs w" using checks_pass [OF ch] by simp
        show ?thesis using R ch k vm_save_keeps_audit [of e w' p ct sc "toSaveContentOptions opts"]
          by (auto simp: service_eq try_eq split: if_splits)
      qed
    qed
    show "success r \<and> auditAddError e = None \<longrightarrow>
       (\<exists>row. audit_logs w1 = audit_logs w @ [(auditDocId e, row)]
              \<and> action row = A_CONTENT_UPDATE \<and> log_success row
              \<and> userId row = user_id (user opts) \<and> resourcePath row = Some p)"
    proof (cases "saveContent_checks schemas e w p ct c opts")
      case (Inl err)
      then show ?thesis using R by (simp add: service_eq)
    next
      case (Inr x)
      show ?thesis
      proof (cases x)
        case (Inl early)
        then show ?thesis using R Inr checks_early [of schemas e w p ct c opts r w1]
          by (simp add: service_eq)
      next
        case (Inr go)
        obtain sc prev w' where go: "go = (sc, prev, w')" by (cases go)
        have ch: "saveContent_checks schemas e w p ct c opts = Inr (Inr (sc, prev, w'))"
          using \<open>saveContent_checks schemas e w p ct c opts = Inr x\<close> Inr go by simp
        have k: "audit_logs w' = audit_logs w" using checks_pass [OF ch] by simp
        show ?thesis using R ch k vm_save_keeps_audit [of e w' p ct sc "toSaveContentOptions opts"]
          by (auto simp: service_eq try_eq split: if_splits)
      qed
    qed
  qed
  have early: "ContentService_saveContent schemas e w p ct c opts = Inr (r, w1) \<and> \<not> success r
       \<and> audit_logs w1 = audit_logs w
       \<and> errorCode r \<in> {Some ''VALIDATION_ERROR'', Some ''DANGEROUS_CONTENT''}"
    if "saveContent_checks schemas e w p ct c opts = Inr (Inl (r, w1))"
    using that checks_early [OF that] by (auto simp: service_eq)
  have thrown: "ContentService_saveContent schemas e w p ct c opts = Inl err"
    if "saveContent_checks schemas e w p ct c opts = Inl err"
    using that by (simp add: service_eq)
  have perm: "ContentService_saveContent schemas e w p ct c opts =
         Inl (Thrown ''Insufficient permissions: content:update required'' None)"
    if "checkPermission (user opts) CONTENT_UPDATE = Inr False"
    using that by (simp add: service_eq saveContent_checks_def ensurePermission_def)
  show ?thesis using most one early thrown perm by blast
qed

theorem saveContent_audit_entries_witness:
  "(\<exists>r w1. ContentService_saveContent no_schemas quiet_env empty_world home ''page'' content_v1
               service_opts = Inr (r, w1)
            \<and> success r \<and> auditAddError quiet_env = None
            \<and> (\<exists>row. audit_logs w1 = audit_logs empty_world @ [(auditDocId quiet_env, row)]
                      \<and> action row = A_CONTENT_UPDATE \<and> log_success row))
   \<and> (\<exists>r w1. saveContent_checks no_schemas quiet_env empty_world home ''page''
                 dangerous_key_content service_opts = Inr (Inl (r, w1))
            \<and> ContentService_saveContent no_schemas quiet_env empty_world home ''page''
                 dangerous_key_content service_opts = Inr (r, w1)
            \<and> audit_logs w1 = audit_logs empty_world)
   \<and> checkPermission (user inactive_options) CONTENT_UPDATE = Inr False
   \<and> ContentService_saveContent no_schemas quiet_env empty_world home ''page'' content_v1
        inactive_options =
       Inl (Thrown ''Insufficient permissions: content:update required'' None)"
proof -
  have g: "getDocError quiet_env = None" and a: "auditAddError quiet_env = None"
    by (simp_all add: quiet_env_def)
  have vm: "fst (VersionManager_saveContent quiet_env empty_world home ''page'' content_v1
       (toSaveContentOptions service_opts)) =
     \<lparr>success = True, data = Some 1, error = None, errorCode = None\<rparr>"
    using vm_first_save [of None content_v1] by (simp add: quiet_env_def)
  obtain r w1 where R: "ContentService_saveContent no_schemas quiet_env empty_world home ''page''
      content_v1 service_opts = Inr (r, w1)" and ok: "success r"
    using vm by (simp add: service_eq checks_v1 [OF g] try_eq)
  have one: "\<exists>row. audit_logs w1 = audit_logs empty_world @ [(auditDocId quiet_env, row)]
                      \<and> action row = A_CONTENT_UPDATE \<and> log_success row"
    using saveContent_audit_entries
        [where schemas = no_schemas and e = quiet_env and w = empty_world and p = home
           and ct = "''page''" and c = content_v1 and opts = service_opts and r = r
           and ?w1.0 = w1,
         THEN conjunct2, THEN conjunct1] R ok a
    by blast
  let ?rej = "\<lparr>success = False, data = None,
               error = Some ''Content contains potentially dangerous patterns'',
               errorCode = Some ''DANGEROUS_CONTENT''\<rparr> :: int operation_result"
  have two: "ContentService_saveContent no_schemas quiet_env empty_world home ''page''
                 dangerous_key_content service_opts =
               Inr (?rej, empty_world\<lparr>patterns := seen_patterns\<rparr>)
            \<and> audit_logs (empty_world\<lparr>patterns := seen_patterns\<rparr>) = audit_logs empty_world"
    using saveContent_audit_entries
        [where schemas = no_schemas and e = quiet_env and w = empty_world and p = home
           and ct = "''page''" and c = dangerous_key_content and opts = service_opts
           and r = ?rej and ?w1.0 = "empty_world\<lparr>patterns := seen_patterns\<rparr>",
         THEN conjunct2, THEN conjunct2, THEN conjunct1] checks_key
    by blast
  have cp: "checkPermission (user inactive_options) CONTENT_UPDATE = Inr False"
    by (simp add: checkPermission_def inactive_options_def admin_U1_def)
  have three: "ContentService_saveContent no_schemas quiet_env empty_world home ''page'' content_v1
        inactive_options =
       Inl (Thrown ''Insufficient permissions: content:update required'' None)"
    using saveContent_audit_entries
        [where schemas = no_schemas and e = quiet_env and w = empty_world and p = home
           and ct = "''page''" and c = content_v1 and opts = inactive_options,
         THEN conjunct2, THEN conjunct2, THEN conjunct2, THEN conjunct2] cp
    by blast
  show ?thesis using R ok a one two checks_key cp three by blast
qed

text \<open>
  C6, as stated, fails: content with a dangerous key is rejected with
  \<^verbatim>\<open>DANGEROUS_CONTENT\<close> and the audit log stays empty.
\<close>

theorem saveContent_rejection_not_audited:
  "outcome_with_audit
     (ContentService_saveContent no_schemas quiet_env empty_world home ''page''
        dangerous_key_content service_opts) =
   Inr (\<lparr>success = False, data = None,
         error = Some ''Content contains potentially dangerous patterns'',
         errorCode = Some ''DANGEROUS_CONTENT''\<rparr>, [])"
proof -
  have "ContentService_saveContent no_schemas quiet_env empty_world home ''page''
        dangerous_key_content service_opts =
      Inr (\<lparr>success = False, data = None,
            error = Some ''Content contains potentially dangerous patterns'',
            errorCode = Some ''DANGEROUS_CONTENT''\<rparr>,
           empty_world\<lparr>patterns := seen_patterns\<rparr>)"
    by (simp add: service_eq checks_key)
  moreover have "audit_logs (empty_world\<lparr>patterns := seen_patterns\<rparr>) = []"
    by (simp add: empty_world_def)
  ultimately show ?thesis by (simp add: outcome_with_audit_def)
qed

text \<open>
  C7. \<^verbatim>\<open>AuditLogger.log\<close> always returns: when the append throws it returns the empty
  string and leaves the state as it was. Once the checks of the Content Service's
  \<^verbatim>\<open>saveContent\<close> have passed, the method returns what the Version Manager returned and
  the documents and snapshots it left, whether or not the audit append throws; what
  the method returns or throws does not depend on the audit append at all.
\<close>

theorem audit_failure_is_swallowed:
  "(\<exists>i w'. log e w input = Inr (i, w'))
   \<and> (auditAddError e = Some err \<longrightarrow> log e w input = Inr ([], w))
   \<and> (saveContent_checks schemas e w p ct c opts = Inr (Inr (sc, prev, w1)) \<longrightarrow>
        (\<exists>w2. ContentService_saveContent schemas e w p ct c opts =
                 Inr (fst (VersionManager_saveContent e w1 p ct sc (toSaveContentOptions opts)),
                      w2)
              \<and> docs w2 =
                  docs (snd (VersionManager_saveContent e w1 p ct sc (toSaveContentOptions opts)))
              \<and> versions w2 =
                  versions (snd (VersionManager_saveContent e w1 p ct sc
                                   (toSaveContentOptions opts)))))
   \<and> map_sum id fst (ContentService_saveContent schemas (e\<lparr>auditAddError := a\<rparr>) w p ct c opts) =
       map_sum id fst (ContentService_saveContent schemas e w p ct c opts)"
proof -
  have 1: "\<exists>i w'. log e w input = Inr (i, w')" using log_total by blast
  have 2: "auditAddError e = Some err \<longrightarrow> log e w input = Inr ([], w)"
    by (simp add: log_eq)
  have 3: "saveContent_checks schemas e w p ct c opts = Inr (Inr (sc, prev, w1)) \<longrightarrow>
        (\<exists>w2. ContentService_saveContent schemas e w p ct c opts =
                 Inr (fst (VersionManager_saveContent e w1 p ct sc (toSaveContentOptions opts)),
                      w2)
              \<and> docs w2 =
                  docs (snd (VersionManager_saveContent e w1 p ct sc (toSaveContentOptions opts)))
              \<and> versions w2 =
                  versions (snd (VersionManager_saveContent e w1 p ct sc
                                   (toSaveContentOptions opts))))"
    by (simp add: service_eq try_eq)
  have 4: "map_sum id fst (ContentService_saveContent schemas (e\<lparr>auditAddError := a\<rparr>) w p ct c opts) =
       map_sum id fst (ContentService_saveContent schemas e w p ct c opts)"
  proof (cases "saveContent_checks schemas e w p ct c opts")
    case (Inl err)
    then show ?thesis by (simp add: service_eq checks_ignore_audit_env)
  next
    case (Inr x)
    show ?thesis
    proof (cases x)
      case (Inl early)
      then show ?thesis using Inr by (simp add: service_eq checks_ignore_audit_env)
    next
      case (Inr go)
      obtain sc' prev' w' where go: "go = (sc', prev', w')" by (cases go)
      show ?thesis
        using \<open>saveContent_checks schemas e w p ct c opts = Inr x\<close> Inr go
        by (simp add: service_eq checks_ignore_audit_env try_eq vm_save_ignores_audit_env)
    qed
  qed
  show ?thesis using 1 2 3 4 by blast
qed

theorem audit_failure_is_swallowed_witness:
  "auditAddError failing_audit_env = Some (Thrown ''unavailable'' (Some ''unavailable''))
   \<and> saveContent_checks no_schemas failing_audit_env empty_world home ''page'' content_v1
        service_opts = Inr (Inr (content_v1, None, empty_world))
   \<and> outcome_with_audit
        (ContentService_saveContent no_schemas failing_audit_env empty_world home ''page''
           content_v1 service_opts) =
       Inr (\<lparr>success = True, data = Some 1, error = None, errorCode = None\<rparr>, [])"
proof -
  let ?R = "ContentService_saveContent no_schemas failing_audit_env empty_world home ''page''
           content_v1 service_opts"
  have a: "auditAddError failing_audit_env = Some (Thrown ''unavailable'' (Some ''unavailable''))"
    by (simp add: failing_audit_env_def)
  have g: "getDocError failing_audit_env = None"
    by (simp add: failing_audit_env_def quiet_env_def)
  note ch = checks_v1 [OF g]
  have vm: "VersionManager_saveContent failing_audit_env empty_world home ''page'' content_v1
       (toSaveContentOptions service_opts) =
     (\<lparr>success = True, data = Some 1, error = None, errorCode = None\<rparr>,
      empty_world\<lparr>docs := (docs empty_world)(home \<mapsto>
         \<lparr>content = Some (JObj content_v1),
          meta = Some \<lparr>version = 1, status = DRAFT, createdAt = 1000, createdBy = ''U1'',
                       updatedAt = 1000, updatedBy = ''U1'', publishedAt = None,
                       publishedBy = None\<rparr>\<rparr>)\<rparr>)"
    unfolding failing_audit_env_def by (rule vm_first_save)
  obtain w2 where r: "?R = Inr (\<lparr>success = True, data = Some 1, error = None, errorCode = None\<rparr>, w2)"
    using audit_failure_is_swallowed
        [where e = failing_audit_env and w = empty_world and schemas = no_schemas and p = home
           and ct = "''page''" and c = content_v1 and opts = service_opts and sc = content_v1
           and prev = None and ?w1.0 = empty_world,
         THEN conjunct2, THEN conjunct2, THEN conjunct1, rule_format, OF ch]
      vm
    by auto
  have "?R = saveContent_try failing_audit_env empty_world home ''page'' content_v1 None service_opts"
    by (simp add: service_eq ch)
  then have "audit_logs w2 = []"
    using r a vm by (simp add: try_eq empty_world_def)
  then show ?thesis using a ch r by (simp add: outcome_with_audit_def)
qed

text \<open>
  C10. \<^verbatim>\<open>containsDangerousContent\<close> is not a function of its input alone. On a freshly
  loaded module the first call on \<^verbatim>\<open>javascript:\<close> answers true and leaves the second
  pattern's \<^verbatim>\<open>lastIndex\<close> at 11; the second call on the same string resumes there,
  finds nothing and answers false. Through the Content Service: content whose only
  dangerous text is a key is rejected by the first save and accepted, as version 1, by
  the next save of the same content.
\<close>

theorem dangerous_recheck_depends_on_history:
  "containsDangerousContent initial_patterns ''javascript:'' =
     (True, [0, 11, 0, 0, 0, 0, 0, 0, 0, 0, 0, 0, 0, 0, 0, 0, 0, 0])
   \<and> containsDangerousContent
         (snd (containsDangerousContent initial_patterns ''javascript:'')) ''javascript:'' =
     (False, initial_patterns)
   \<and> map_sum id fst
       (ContentService_saveContent no_schemas quiet_env empty_world home ''page''
          dangerous_key_content service_opts) =
     Inr \<lparr>success = False, data = None,
          error = Some ''Content contains potentially dangerous patterns'',
          errorCode = Some ''DANGEROUS_CONTENT''\<rparr>
   \<and> map_sum id fst
       (ContentService_saveContent no_schemas quiet_env
          (empty_world\<lparr>patterns := seen_patterns\<rparr>) home ''page''
          dangerous_key_content service_opts) =
     Inr \<lparr>success = True, data = Some 1, error = None, errorCode = None\<rparr>"
proof -
  have a: "containsDangerousContent initial_patterns ''javascript:'' =
     (True, [0, 11, 0, 0, 0, 0, 0, 0, 0, 0, 0, 0, 0, 0, 0, 0, 0, 0])
   \<and> containsDangerousContent
         (snd (containsDangerousContent initial_patterns ''javascript:'')) ''javascript:'' =
     (False, initial_patterns)"
    by (rule containsDangerousContent_twice)
  have vm: "fst (VersionManager_saveContent quiet_env empty_world home ''page''
       dangerous_key_content (toSaveContentOptions service_opts)) =
     \<lparr>success = True, data = Some 1, error = None, errorCode = None\<rparr>"
    using vm_first_save [of None dangerous_key_content] by (simp add: quiet_env_def)
  have b: "map_sum id fst
       (ContentService_saveContent no_schemas quiet_env empty_world home ''page''
          dangerous_key_content service_opts) =
     Inr \<lparr>success = False, data = None,
          error = Some ''Content contains potentially dangerous patterns'',
          errorCode = Some ''DANGEROUS_CONTENT''\<rparr>"
    by (simp add: service_eq checks_key)
  have c: "map_sum id fst
       (ContentService_saveContent no_schemas quiet_env
          (empty_world\<lparr>patterns := seen_patterns\<rparr>) home ''page''
          dangerous_key_content service_opts) =
     Inr \<lparr>success = True, data = Some 1, error = None, errorCode = None\<rparr>"
    using vm by (simp add: service_eq checks_key_again try_eq)
  from a b c show ?thesis by blast
qed

end
